theory Spec2Isabelle
  imports Complex_Main "HOL-Library.Product_Lexorder"
begin

section \<open>Player model (models/Player.js)\<close>

text \<open>
  A player document. Scores and counters are JavaScript Numbers holding integers
  (the specification calls them integers), modelled as \<open>int\<close>; dates are
  milliseconds since the epoch. Fields no operation below reads (email,
  profilePicture, achievements) are left out.
\<close>

record player =
  playerId :: string
  username :: string
  region :: string
  currentScore :: int
  totalGamesPlayed :: int
  averageScore :: int
  bestScore :: int
  currentGameMode :: string
  isOnline :: bool
  lastActiveAt :: int
  wins :: int
  losses :: int
  draws :: int

text \<open>
  \<open>Math.round(n / d)\<close> for integers \<open>n\<close> and \<open>d > 0\<close>: JavaScript rounds to the
  nearest integer, halves towards plus infinity, that is \<open>floor (n / d + 1/2)\<close>.
  The quotient is a double; for integers below \<open>2 ^ 52\<close> in magnitude its
  rounding does not move it across a half, so the integer formula is what the
  code computes.
\<close>

definition mathRoundDiv :: "int \<Rightarrow> int \<Rightarrow> int" where
  "mathRoundDiv n d = (2 * n + d) div (2 * d)"

text \<open>The \<open>pre('save')\<close> hook of the player schema.\<close>

definition playerPreSave :: "player \<Rightarrow> player" where
  "playerPreSave p =
     (let p1 = (if totalGamesPlayed p > 0
                then p\<lparr>averageScore := mathRoundDiv (currentScore p) (max (totalGamesPlayed p) 1)\<rparr>
                else p)
      in if currentScore p1 > bestScore p1 then p1\<lparr>bestScore := currentScore p1\<rparr> else p1)"

text \<open>
  The collection is a list of documents; \<open>findOne({ playerId })\<close> returns the
  first document with that id.
\<close>

definition findOne :: "string \<Rightarrow> player list \<Rightarrow> player option" where
  "findOne pid ps = find (\<lambda>p. playerId p = pid) ps"

text \<open>
  \<open>doc.save()\<close>: the hook runs on the document, then the stored document of
  the same id is replaced (a new document is appended). The saved document is
  returned with the collection.
\<close>

fun replaceDoc :: "player \<Rightarrow> player list \<Rightarrow> player list" where
  "replaceDoc d [] = [d]"
| "replaceDoc d (p # ps) = (if playerId p = playerId d then d # ps else p # replaceDoc d ps)"

definition playerSave :: "player \<Rightarrow> player list \<Rightarrow> player \<times> player list" where
  "playerSave p ps = (let d = playerPreSave p in (d, replaceDoc d ps))"

text \<open>Instance methods: both end in \<open>this.save()\<close>.\<close>

definition updateOnlineStatus :: "bool \<Rightarrow> int \<Rightarrow> player \<Rightarrow> player list \<Rightarrow> player \<times> player list" where
  "updateOnlineStatus online now p ps = playerSave (p\<lparr>isOnline := online, lastActiveAt := now\<rparr>) ps"

definition addGameResult :: "string \<Rightarrow> int \<Rightarrow> player \<Rightarrow> player list \<Rightarrow> player \<times> player list" where
  "addGameResult result scoreChange p ps =
     (let p1 = (if result = ''win'' then p\<lparr>wins := wins p + 1\<rparr>
                else if result = ''loss'' then p\<lparr>losses := losses p + 1\<rparr>
                else if result = ''draw'' then p\<lparr>draws := draws p + 1\<rparr>
                else p);
          p2 = p1\<lparr>currentScore := max 0 (currentScore p1 + scoreChange)\<rparr>;
          p3 = p2\<lparr>totalGamesPlayed := totalGamesPlayed p2 + 1\<rparr>
      in playerSave p3 ps)"

text \<open>
  JavaScript truthiness of an optional string argument: \<open>null\<close>, \<open>undefined\<close>
  and the empty string are falsy.
\<close>

fun truthy :: "string option \<Rightarrow> bool" where
  "truthy None = False"
| "truthy (Some s) = (s \<noteq> [])"

text \<open>
  The static \<open>updatePlayerScore\<close>: a \<open>findOneAndUpdate\<close> with
  \<open>{ new: true, upsert: false }\<close>. It is a query operation: the fields named in
  \<open>updateData\<close> are written to the first matching document and nothing else is;
  the \<open>save\<close> hook is registered for \<open>save\<close> only and does not run. The
  updated document is returned, or \<open>null\<close> when no document matches.
\<close>

definition applyScoreUpdate :: "int \<Rightarrow> string option \<Rightarrow> int \<Rightarrow> player \<Rightarrow> player" where
  "applyScoreUpdate newScore gameMode now p =
     (let p1 = p\<lparr>currentScore := newScore, lastActiveAt := now,
                  totalGamesPlayed := totalGamesPlayed p + 1\<rparr>
      in if truthy gameMode then p1\<lparr>currentGameMode := the gameMode\<rparr> else p1)"

fun findOneAndUpdate :: "string \<Rightarrow> (player \<Rightarrow> player) \<Rightarrow> player list \<Rightarrow> player option \<times> player list" where
  "findOneAndUpdate pid f [] = (None, [])"
| "findOneAndUpdate pid f (p # ps) =
     (if playerId p = pid then (Some (f p), f p # ps)
      else (let (r, ps') = findOneAndUpdate pid f ps in (r, p # ps')))"

definition updatePlayerScore :: "string \<Rightarrow> int \<Rightarrow> string option \<Rightarrow> int \<Rightarrow> player list \<Rightarrow> player option \<times> player list" where
  "updatePlayerScore pid newScore gameMode now ps =
     findOneAndUpdate pid (applyScoreUpdate newScore gameMode now) ps"

subsection \<open>Leaderboard and rank queries\<close>

record options =
  optLimit :: nat
  optSkip :: nat
  optRegion :: "string option"
  optGameMode :: "string option"
  optOnlineOnly :: bool

text \<open>A query document: each field is a condition or absent.\<close>

record matchConditions =
  mcScoreGt :: "int option"
  mcRegion :: "string option"
  mcGameMode :: "string option"
  mcIsOnline :: "bool option"

definition noConditions :: matchConditions where
  "noConditions = \<lparr>mcScoreGt = None, mcRegion = None, mcGameMode = None, mcIsOnline = None\<rparr>"

definition matchesDoc :: "matchConditions \<Rightarrow> player \<Rightarrow> bool" where
  "matchesDoc c p =
     ((case mcScoreGt c of None \<Rightarrow> True | Some s \<Rightarrow> currentScore p > s)
      \<and> (case mcRegion c of None \<Rightarrow> True | Some r \<Rightarrow> region p = r)
      \<and> (case mcGameMode c of None \<Rightarrow> True | Some g \<Rightarrow> currentGameMode p = g)
      \<and> (case mcIsOnline c of None \<Rightarrow> True | Some b \<Rightarrow> isOnline p = b))"

definition findDocs :: "matchConditions \<Rightarrow> player list \<Rightarrow> player list" where
  "findDocs c ps = filter (matchesDoc c) ps"

definition countDocuments :: "matchConditions \<Rightarrow> player list \<Rightarrow> nat" where
  "countDocuments c ps = length (filter (matchesDoc c) ps)"

definition leaderboardConditions :: "options \<Rightarrow> matchConditions" where
  "leaderboardConditions opts =
     (let c0 = noConditions;
          c1 = (if truthy (optRegion opts) \<and> optRegion opts \<noteq> Some ''GLOBAL''
                then c0\<lparr>mcRegion := optRegion opts\<rparr> else c0);
          c2 = (if truthy (optGameMode opts) then c1\<lparr>mcGameMode := optGameMode opts\<rparr> else c1)
      in if optOnlineOnly opts then c2\<lparr>mcIsOnline := Some True\<rparr> else c2)"

text \<open>
  \<open>getLeaderboard\<close>: the matching documents sorted by score, then by last
  activity, both descending; the cursor skips \<open>skip\<close> documents and then
  returns at most \<open>limit\<close> of them (a limit of 0 is no limit).
\<close>

definition getLeaderboard :: "options \<Rightarrow> player list \<Rightarrow> player list" where
  "getLeaderboard opts ps =
     (let sorted = sort_key (\<lambda>p. (- currentScore p, - lastActiveAt p))
                     (findDocs (leaderboardConditions opts) ps);
          skipped = drop (optSkip opts) sorted
      in if optLimit opts = 0 then skipped else take (optLimit opts) skipped)"

definition rankConditions :: "player \<Rightarrow> options \<Rightarrow> matchConditions" where
  "rankConditions pl opts =
     (let c0 = noConditions\<lparr>mcScoreGt := Some (currentScore pl)\<rparr>;
          c1 = (if truthy (optRegion opts) \<and> optRegion opts \<noteq> Some ''GLOBAL''
                then c0\<lparr>mcRegion := optRegion opts\<rparr> else c0)
      in if truthy (optGameMode opts) then c1\<lparr>mcGameMode := optGameMode opts\<rparr> else c1)"

definition getPlayerRank :: "string \<Rightarrow> options \<Rightarrow> player list \<Rightarrow> nat option" where
  "getPlayerRank pid opts ps =
     (case findOne pid ps of
        None \<Rightarrow> None
      | Some pl \<Rightarrow> Some (countDocuments (rankConditions pl opts) ps + 1))"

section \<open>Game session model (models/GameSession.js)\<close>

record participant =
  spPlayerId :: string
  spUsername :: string
  initialScore :: int
  currentSessionScore :: int
  position :: "nat option"
  isActive :: bool

datatype sessionStatus = Waiting | Active | Completed | Abandoned

datatype eventType = ScoreUpdate | PlayerJoined | PlayerLeft | GameStart | GameEnd | Achievement

text \<open>The payload of an event (a Mixed field), one constructor per payload the code writes.\<close>

datatype eventData =
    JoinedData string
  | GameStartData nat
  | ScoreData int int string
  | GameEndData "(string \<times> string \<times> int \<times> nat option) list"
  | LeftData string

record event =
  evTimestamp :: int
  evPlayerId :: "string option"
  evType :: eventType
  evData :: eventData

record gameSession =
  sessionId :: string
  players :: "participant list"
  gameMode :: string
  sessionRegion :: string
  status :: sessionStatus
  maxPlayers :: nat
  startedAt :: "int option"
  endedAt :: "int option"
  duration :: "int option"
  realTimeEvents :: "event list"

datatype sessionError =
    NotFoundOrNotJoinable
  | SessionFull
  | ActiveSessionNotFoundForPlayer
  | PlayerNotFoundInSession
  | ActiveSessionNotFound
  | TypeError

text \<open>
  The \<open>pre('save')\<close> hook of the session schema. \<open>!this.duration\<close> holds for
  \<open>null\<close> and for 0.
\<close>

definition sessionPreSave :: "int \<Rightarrow> gameSession \<Rightarrow> gameSession" where
  "sessionPreSave now s =
     (if status s = Completed \<and> startedAt s \<noteq> None \<and> (duration s = None \<or> duration s = Some 0)
      then s\<lparr>duration := Some (mathRoundDiv (now - the (startedAt s)) 1000), endedAt := Some now\<rparr>
      else s)"

fun replaceSession :: "gameSession \<Rightarrow> gameSession list \<Rightarrow> gameSession list" where
  "replaceSession d [] = [d]"
| "replaceSession d (s # ss) = (if sessionId s = sessionId d then d # ss else s # replaceSession d ss)"

definition sessionSave :: "int \<Rightarrow> gameSession \<Rightarrow> gameSession list \<Rightarrow> gameSession \<times> gameSession list" where
  "sessionSave now s ss = (let d = sessionPreSave now s in (d, replaceSession d ss))"

text \<open>\<open>findOne({ sessionId, status: { $in: ... } })\<close>: the first matching session.\<close>

definition findSession :: "string \<Rightarrow> sessionStatus list \<Rightarrow> gameSession list \<Rightarrow> gameSession option" where
  "findSession sid sts ss = find (\<lambda>s. sessionId s = sid \<and> status s \<in> set sts) ss"

text \<open>\<open>Array.prototype.findIndex\<close>, with \<open>None\<close> for -1.\<close>

fun findIndex :: "('a \<Rightarrow> bool) \<Rightarrow> 'a list \<Rightarrow> nat option" where
  "findIndex P [] = None"
| "findIndex P (x # xs) =
     (if P x then Some 0 else (case findIndex P xs of None \<Rightarrow> None | Some i \<Rightarrow> Some (Suc i)))"

record playerData =
  pdPlayerId :: string
  pdUsername :: string
  pdCurrentScore :: int

text \<open>The body of \<open>joinSession\<close> on the session found, before the save.\<close>

definition joinFound :: "playerData \<Rightarrow> int \<Rightarrow> gameSession \<Rightarrow> sessionError + (bool \<times> gameSession)" where
  "joinFound pd now s =
     (if length (players s) \<ge> maxPlayers s then Inl SessionFull
      else if find (\<lambda>p. spPlayerId p = pdPlayerId pd) (players s) \<noteq> None then Inr (False, s)
      else
        (let s1 = s\<lparr>players := players s @
                      [\<lparr>spPlayerId = pdPlayerId pd, spUsername = pdUsername pd,
                        initialScore = pdCurrentScore pd, currentSessionScore = 0,
                        position = None, isActive = True\<rparr>]\<rparr>;
             s2 = s1\<lparr>realTimeEvents := realTimeEvents s1 @
                      [\<lparr>evTimestamp = now, evPlayerId = Some (pdPlayerId pd),
                        evType = PlayerJoined, evData = JoinedData (pdUsername pd)\<rparr>]\<rparr>;
             s3 = (if length (players s2) \<ge> 2 \<and> status s2 = Waiting
                   then s2\<lparr>status := Active, startedAt := Some now,
                           realTimeEvents := realTimeEvents s2 @
                             [\<lparr>evTimestamp = now, evPlayerId = None, evType = GameStart,
                               evData = GameStartData (length (players s2))\<rparr>]\<rparr>
                   else s2)
         in Inr (True, s3)))"

text \<open>
  \<open>joinSession\<close>: the session is looked up among the waiting and active ones;
  an already present player gets the session back unsaved, a new one is added
  and the session saved.
\<close>

definition joinSession :: "string \<Rightarrow> playerData \<Rightarrow> int \<Rightarrow> gameSession list \<Rightarrow> sessionError + (gameSession \<times> gameSession list)" where
  "joinSession sid pd now ss =
     (case findSession sid [Waiting, Active] ss of
        None \<Rightarrow> Inl NotFoundOrNotJoinable
      | Some s \<Rightarrow>
          (case joinFound pd now s of
             Inl e \<Rightarrow> Inl e
           | Inr (changed, s') \<Rightarrow> if changed then Inr (sessionSave now s' ss) else Inr (s', ss)))"

record scoreData =
  sdScore :: int
  sdDelta :: "int option"
  sdReason :: "string option"

text \<open>
  The session's \<open>updatePlayerScore\<close>: the query asks for an active session that
  has the player among its participants.
\<close>

definition sessionUpdatePlayerScore :: "string \<Rightarrow> string \<Rightarrow> scoreData \<Rightarrow> int \<Rightarrow> gameSession list \<Rightarrow> sessionError + (gameSession \<times> gameSession list)" where
  "sessionUpdatePlayerScore sid pid sd now ss =
     (case find (\<lambda>s. sessionId s = sid \<and> status s = Active \<and> pid \<in> set (map spPlayerId (players s))) ss of
        None \<Rightarrow> Inl ActiveSessionNotFoundForPlayer
      | Some s \<Rightarrow>
          (case findIndex (\<lambda>p. spPlayerId p = pid) (players s) of
             None \<Rightarrow> Inl PlayerNotFoundInSession
           | Some i \<Rightarrow>
               (let s1 = s\<lparr>players := (players s)[i := (players s ! i)\<lparr>currentSessionScore := sdScore sd\<rparr>]\<rparr>;
                    s2 = s1\<lparr>realTimeEvents := realTimeEvents s1 @
                           [\<lparr>evTimestamp = now, evPlayerId = Some pid, evType = ScoreUpdate,
                             evData = ScoreData (sdScore sd)
                                        (case sdDelta sd of None \<Rightarrow> 0 | Some d \<Rightarrow> d)
                                        (if truthy (sdReason sd) then the (sdReason sd) else ''score_update'')\<rparr>]\<rparr>
                in Inr (sessionSave now s2 ss))))"

text \<open>
  The \<open>forEach\<close> of \<open>endSession\<close>: the player at index \<open>i\<close> of the sorted copy
  gets position \<open>i + 1\<close>, written to the first participant with the same id. An
  index of -1 would make the assignment throw a TypeError.
\<close>

fun assignPositions :: "nat \<Rightarrow> participant list \<Rightarrow> participant list \<Rightarrow> participant list option" where
  "assignPositions i [] ps = Some ps"
| "assignPositions i (x # xs) ps =
     (case findIndex (\<lambda>p. spPlayerId p = spPlayerId x) ps of
        None \<Rightarrow> None
      | Some k \<Rightarrow> assignPositions (i + 1) xs (ps[k := (ps ! k)\<lparr>position := Some (i + 1)\<rparr>]))"

text \<open>
  The sorted copy: \<open>sort\<close> is stable and the comparator \<open>b.score - a.score\<close>
  orders by descending score.
\<close>

definition sortedPlayers :: "participant list \<Rightarrow> participant list" where
  "sortedPlayers ps = sort_key (\<lambda>p. - currentSessionScore p) ps"

definition endFound :: "int \<Rightarrow> gameSession \<Rightarrow> sessionError + gameSession" where
  "endFound now s =
     (let s1 = s\<lparr>status := Completed, endedAt := Some now\<rparr>
      in case assignPositions 0 (sortedPlayers (players s1)) (players s1) of
           None \<Rightarrow> Inl TypeError
         | Some ps \<Rightarrow>
             (let s2 = s1\<lparr>players := ps\<rparr>
              in Inr (s2\<lparr>realTimeEvents := realTimeEvents s2 @
                        [\<lparr>evTimestamp = now, evPlayerId = None, evType = GameEnd,
                          evData = GameEndData
                            (map (\<lambda>p. (spPlayerId p, spUsername p, currentSessionScore p, position p)) ps)\<rparr>]\<rparr>)))"

definition endSession :: "string \<Rightarrow> int \<Rightarrow> gameSession list \<Rightarrow> sessionError + (gameSession \<times> gameSession list)" where
  "endSession sid now ss =
     (case findSession sid [Active] ss of
        None \<Rightarrow> Inl ActiveSessionNotFound
      | Some s \<Rightarrow>
          (case endFound now s of
             Inl e \<Rightarrow> Inl e
           | Inr s' \<Rightarrow> Inr (sessionSave now s' ss)))"

text \<open>The instance method \<open>removePlayer\<close>, before its save.\<close>

definition removePlayerDoc :: "string \<Rightarrow> int \<Rightarrow> gameSession \<Rightarrow> gameSession" where
  "removePlayerDoc pid now s =
     (case findIndex (\<lambda>p. spPlayerId p = pid) (players s) of
        None \<Rightarrow> s
      | Some i \<Rightarrow>
          (let s1 = s\<lparr>players := (players s)[i := (players s ! i)\<lparr>isActive := False\<rparr>]\<rparr>;
               s2 = s1\<lparr>realTimeEvents := realTimeEvents s1 @
                      [\<lparr>evTimestamp = now, evPlayerId = Some pid, evType = PlayerLeft,
                        evData = LeftData ''disconnected''\<rparr>]\<rparr>
           in if length (filter isActive (players s2)) = 0
              then s2\<lparr>status := Abandoned, endedAt := Some now\<rparr>
              else s2))"

definition removePlayer :: "string \<Rightarrow> int \<Rightarrow> gameSession \<Rightarrow> gameSession list \<Rightarrow> gameSession \<times> gameSession list" where
  "removePlayer pid now s ss = sessionSave now (removePlayerDoc pid now s) ss"

text \<open>
  The leave route (routes/sessions.js): the session is looked up by id alone,
  whatever its status, and \<open>removePlayer\<close> is called on it.
\<close>

definition leaveSession :: "string \<Rightarrow> string \<Rightarrow> int \<Rightarrow> gameSession list \<Rightarrow> (gameSession \<times> gameSession list) option" where
  "leaveSession sid pid now ss =
     (case find (\<lambda>s. sessionId s = sid) ss of
        None \<Rightarrow> None
      | Some s \<Rightarrow> Some (removePlayer pid now s ss))"

subsection \<open>Ending a session over the request surface (routes/sessions.js)\<close>

text \<open>
  \<open>calculatePositionBonus\<close> works in double precision: the quotient
  \<open>(totalPlayers - position + 1) / totalPlayers\<close> is rounded to a double, its
  product with 100 is rounded again, and \<open>Math.round\<close> is taken of that. A
  double is written \<open>mant * 2 ^ expo\<close> with a mantissa of 53 bits; rounding is to
  the nearest double, ties to the even mantissa. Overflow and subnormal numbers
  do not occur for the magnitudes met here and are not modelled.
\<close>

record double =
  mant :: int
  expo :: int

fun bitLength :: "nat \<Rightarrow> nat" where
  "bitLength n = (if n = 0 then 0 else Suc (bitLength (n div 2)))"

declare bitLength.simps [simp del]

text \<open>The integer nearest to \<open>n / d\<close> for \<open>n \<ge> 0\<close> and \<open>d > 0\<close>, ties to even.\<close>

definition roundHalfEven :: "int \<Rightarrow> int \<Rightarrow> int" where
  "roundHalfEven n d =
     (let q = n div d; r = n mod d
      in if 2 * r < d then q
         else if 2 * r > d then q + 1
         else if even q then q else q + 1)"

text \<open>The double nearest to the fraction \<open>n / d\<close>, for \<open>d > 0\<close>.\<close>

definition roundToDouble :: "int \<Rightarrow> int \<Rightarrow> double" where
  "roundToDouble n d =
     (if n = 0 then \<lparr>mant = 0, expo = 0\<rparr>
      else
        (let a = \<bar>n\<bar>;
             k = int (bitLength (nat a)) - int (bitLength (nat d));
             e = (if (if k \<ge> 0 then a \<ge> d * 2 ^ nat k else a * 2 ^ nat (- k) \<ge> d)
                  then k else k - 1);
             s = 52 - e;
             m = (if s \<ge> 0 then roundHalfEven (a * 2 ^ nat s) d
                  else roundHalfEven a (d * 2 ^ nat (- s)))
         in \<lparr>mant = sgn n * m, expo = - s\<rparr>))"

text \<open>The product of an integer and a double, rounded.\<close>

definition timesDouble :: "int \<Rightarrow> double \<Rightarrow> double" where
  "timesDouble c x =
     (if expo x \<ge> 0 then roundToDouble (c * mant x * 2 ^ nat (expo x)) 1
      else roundToDouble (c * mant x) (2 ^ nat (- expo x)))"

text \<open>\<open>Math.round\<close> of a double: \<open>floor (x + 1/2)\<close>.\<close>

definition mathRound :: "double \<Rightarrow> int" where
  "mathRound x =
     (if expo x \<ge> 0 then mant x * 2 ^ nat (expo x)
      else (2 * mant x + 2 ^ nat (- expo x)) div (2 * 2 ^ nat (- expo x)))"

definition calculatePositionBonus :: "int \<Rightarrow> int \<Rightarrow> int" where
  "calculatePositionBonus pos totalPlayers =
     (if totalPlayers < 2 then 0
      else
        (let baseBonus = 100;
             positionMultiplier = roundToDouble (totalPlayers - pos + 1) totalPlayers
         in mathRound (timesDouble baseBonus positionMultiplier)))"

text \<open>
  The write-back of the end handler: for each participant of the ended session,
  in order, an active one has its durable score set to its session score plus
  the bonus. A participant without a position (none exists after \<open>endSession\<close>)
  would produce NaN; the model writes nothing for it.
\<close>

fun writeBack :: "gameSession \<Rightarrow> int \<Rightarrow> participant list \<Rightarrow> player list \<Rightarrow> player list" where
  "writeBack es now [] db = db"
| "writeBack es now (p # ps) db =
     (if isActive p then
        (case position p of
           None \<Rightarrow> writeBack es now ps db
         | Some pos \<Rightarrow>
             (let scoreBonus = calculatePositionBonus (int pos) (int (length (players es)));
                  finalScore = currentSessionScore p + scoreBonus
              in writeBack es now ps
                   (snd (updatePlayerScore (spPlayerId p) finalScore (Some (gameMode es)) now db))))
      else writeBack es now ps db)"

definition endSessionHandler :: "string \<Rightarrow> int \<Rightarrow> gameSession list \<Rightarrow> player list \<Rightarrow> sessionError + (gameSession \<times> gameSession list \<times> player list)" where
  "endSessionHandler sid now ss db =
     (case endSession sid now ss of
        Inl e \<Rightarrow> Inl e
      | Inr (es, ss') \<Rightarrow> Inr (es, ss', writeBack es now (players es) db))"

section \<open>Rate limiting of score updates (middleware/validation.js)\<close>

text \<open>
  The module-level \<open>Map\<close> from player id to the timestamps of that player's
  recorded updates.
\<close>

type_synonym rateStore = "string \<rightharpoonup> int list"

text \<open>The result object; \<open>resetTime\<close> is \<open>None\<close> where the code computes NaN.\<close>

record rateCheck =
  allowed :: bool
  remaining :: int
  resetTime :: "int option"

text \<open>\<open>Math.ceil(x / 1000)\<close> for an integer \<open>x\<close>.\<close>

definition ceilDiv1000 :: "int \<Rightarrow> int" where
  "ceilDiv1000 x = - ((- x) div 1000)"

definition validateScoreUpdateRate :: "string \<Rightarrow> int \<Rightarrow> int \<Rightarrow> rateStore \<Rightarrow> rateCheck \<times> rateStore" where
  "validateScoreUpdateRate pid maxUpdatesPerMinute now store =
     (let minuteAgo = now - 60 * 1000;
          store1 = (if store pid = None then store(pid \<mapsto> []) else store);
          playerUpdates = the (store1 pid);
          recentUpdates = filter (\<lambda>timestamp. timestamp > minuteAgo) playerUpdates;
          store2 = store1(pid \<mapsto> recentUpdates)
      in if int (length recentUpdates) \<ge> maxUpdatesPerMinute
         then (\<lparr>allowed = False, remaining = 0,
                 resetTime = (case recentUpdates of
                                [] \<Rightarrow> None
                              | t # _ \<Rightarrow> Some (ceilDiv1000 (t + 60 * 1000 - now)))\<rparr>,
               store2)
         else (\<lparr>allowed = True,
                 remaining = maxUpdatesPerMinute - int (length (recentUpdates @ [now])),
                 resetTime = Some 60\<rparr>,
               store2(pid \<mapsto> recentUpdates @ [now])))"

text \<open>
  A history of attempts, each a player id and the clock reading of its call,
  run through the limiter in order: every attempt is paired with whether it was
  allowed.
\<close>

fun runAttempts :: "int \<Rightarrow> rateStore \<Rightarrow> (string \<times> int) list \<Rightarrow> (string \<times> int \<times> bool) list \<times> rateStore" where
  "runAttempts m store [] = ([], store)"
| "runAttempts m store ((pid, t) # as) =
     (let (r, store') = validateScoreUpdateRate pid m t store;
          (rs, store'') = runAttempts m store' as
      in ((pid, t, allowed r) # rs, store''))"

text \<open>
  The prior attempts of player \<open>pid\<close> that were allowed (and so recorded) and lie
  in the window of 60 seconds that ends at \<open>now\<close>.
\<close>

definition acceptedInWindow :: "string \<Rightarrow> int \<Rightarrow> (string \<times> int \<times> bool) list \<Rightarrow> int list" where
  "acceptedInWindow pid now rs =
     map (\<lambda>(q, t, a). t) (filter (\<lambda>(q, t, a). q = pid \<and> a \<and> t > now - 60 * 1000) rs)"

section \<open>Socket service (services/socketService.js)\<close>

definition generateRoomNames :: "string option \<Rightarrow> string option \<Rightarrow> string list" where
  "generateRoomNames rgn gm =
     (let rooms = [''global''];
          rooms1 = (if truthy rgn \<and> rgn \<noteq> Some ''GLOBAL''
                    then rooms @ [''region:'' @ the rgn] else rooms)
      in if truthy gm
         then (let rooms2 = rooms1 @ [''gamemode:'' @ the gm]
               in if truthy rgn \<and> rgn \<noteq> Some ''GLOBAL''
                  then rooms2 @ [''region:'' @ the rgn @ '':gamemode:'' @ the gm]
                  else rooms2)
         else rooms1)"

record connectionInfo =
  socketId :: string
  lastActivity :: int
  ciRegion :: string
  ciGameMode :: string
  ciUsername :: string

text \<open>
  The state the handlers read and write: the three maps of the service, the
  rooms every socket is in (kept by the transport), the rate-limit store and the
  two collections.
\<close>

record service =
  connectedPlayers :: "string \<rightharpoonup> connectionInfo"
  socketToPlayer :: "string \<rightharpoonup> string"
  roomSubscriptions :: "string \<rightharpoonup> string set"
  socketRooms :: "string \<Rightarrow> string set"
  scoreUpdateRateLimit :: rateStore
  playersDb :: "player list"
  sessionsDb :: "gameSession list"

definition regions :: "string list" where
  "regions = [''NA'', ''EU'', ''ASIA'', ''SA'', ''OCE'', ''GLOBAL'']"

definition gameModes :: "string list" where
  "gameModes = [''classic'', ''blitz'', ''survival'', ''team'', ''ranked'']"

definition optionalIn :: "string option \<Rightarrow> string list \<Rightarrow> bool" where
  "optionalIn v vs = (case v of None \<Rightarrow> True | Some x \<Rightarrow> x \<in> set vs)"

record joinRoom =
  jrPlayerId :: string
  jrRegion :: "string option"
  jrGameMode :: "string option"

text \<open>The schema \<open>socketSchemas.joinRoom\<close> on a payload of the right shape.\<close>

definition validJoinRoom :: "joinRoom \<Rightarrow> bool" where
  "validJoinRoom d = (jrPlayerId d \<noteq> [] \<and> optionalIn (jrRegion d) regions \<and> optionalIn (jrGameMode d) gameModes)"

text \<open>What the handler emits to the calling socket. Broadcasts to other sockets
  change no state and are left out.\<close>

datatype reply =
    ErrorReply string "int option"
  | PlayerJoinedReply "string list"
  | ScoreUpdatedReply player
  | SubscribedReply "string list"
  | UnsubscribedReply "string list"
  | NoReply

text \<open>\<open>a || b\<close> for an optional string \<open>a\<close>.\<close>

definition orElse :: "string option \<Rightarrow> string \<Rightarrow> string" where
  "orElse a b = (if truthy a then the a else b)"

definition handlePlayerJoin :: "string \<Rightarrow> joinRoom \<Rightarrow> int \<Rightarrow> service \<Rightarrow> reply \<times> service" where
  "handlePlayerJoin sock d now st =
     (if \<not> validJoinRoom d then (ErrorReply ''validation_error'' None, st)
      else
        (case findOne (jrPlayerId d) (playersDb st) of
           None \<Rightarrow> (ErrorReply ''player_not_found'' None, st)
         | Some pl0 \<Rightarrow>
             (let (pl, db) = updateOnlineStatus True now pl0 (playersDb st);
                  pid = jrPlayerId d;
                  rooms = generateRoomNames (Some (orElse (jrRegion d) (region pl)))
                            (Some (orElse (jrGameMode d) (currentGameMode pl)))
              in (PlayerJoinedReply rooms,
                  st\<lparr>playersDb := db,
                     connectedPlayers := (connectedPlayers st)(pid \<mapsto>
                        \<lparr>socketId = sock, lastActivity = now,
                         ciRegion = orElse (jrRegion d) (region pl),
                         ciGameMode = orElse (jrGameMode d) (currentGameMode pl),
                         ciUsername = username pl\<rparr>),
                     socketToPlayer := (socketToPlayer st)(sock \<mapsto> pid),
                     socketRooms := (socketRooms st)(sock := socketRooms st sock \<union> set rooms),
                     roomSubscriptions := (roomSubscriptions st)(pid \<mapsto> set rooms)\<rparr>))))"

text \<open>
  Subscription and unsubscription take \<open>region\<close> and \<open>gameMode\<close> from the
  payload as they are. \<open>!playerId\<close> holds for a socket that never joined.
\<close>

definition currentRoomsOf :: "service \<Rightarrow> string \<Rightarrow> string set" where
  "currentRoomsOf st pid = (case roomSubscriptions st pid of None \<Rightarrow> {} | Some rs \<Rightarrow> rs)"

definition handleLeaderboardSubscription :: "string \<Rightarrow> string option \<Rightarrow> string option \<Rightarrow> service \<Rightarrow> reply \<times> service" where
  "handleLeaderboardSubscription sock rgn gm st =
     (if \<not> truthy (socketToPlayer st sock) then (ErrorReply ''not_authenticated'' None, st)
      else
        (let pid = the (socketToPlayer st sock);
             rooms = generateRoomNames rgn gm
         in (SubscribedReply rooms,
             st\<lparr>socketRooms := (socketRooms st)(sock := socketRooms st sock \<union> set rooms),
                roomSubscriptions := (roomSubscriptions st)(pid \<mapsto> currentRoomsOf st pid \<union> set rooms)\<rparr>)))"

definition handleLeaderboardUnsubscription :: "string \<Rightarrow> string option \<Rightarrow> string option \<Rightarrow> service \<Rightarrow> reply \<times> service" where
  "handleLeaderboardUnsubscription sock rgn gm st =
     (if \<not> truthy (socketToPlayer st sock) then (NoReply, st)
      else
        (let pid = the (socketToPlayer st sock);
             roomsToLeave = generateRoomNames rgn gm
         in (UnsubscribedReply roomsToLeave,
             st\<lparr>socketRooms := (socketRooms st)(sock := socketRooms st sock - set roomsToLeave),
                roomSubscriptions := (roomSubscriptions st)(pid \<mapsto> currentRoomsOf st pid - set roomsToLeave)\<rparr>)))"

record scoreUpdate =
  suPlayerId :: string
  suSessionId :: "string option"
  suScore :: int
  suGameMode :: "string option"
  suDelta :: "int option"
  suReason :: "string option"

text \<open>The schema \<open>socketSchemas.scoreUpdate\<close> on a payload of the right shape.\<close>

definition validScoreUpdate :: "scoreUpdate \<Rightarrow> bool" where
  "validScoreUpdate d =
     (suPlayerId d \<noteq> [] \<and> suSessionId d \<noteq> Some [] \<and> suScore d \<ge> 0
      \<and> optionalIn (suGameMode d) gameModes
      \<and> (case suReason d of None \<Rightarrow> True | Some r \<Rightarrow> r \<noteq> [] \<and> length r \<le> 100))"

text \<open>
  The part of \<open>handleScoreUpdate\<close> after the ownership check: the session score
  first when a session id is given (an error thrown there is caught by the
  handler's \<open>catch\<close>), then the durable score, then the connection info.
\<close>

definition applyOwnedScoreUpdate :: "scoreUpdate \<Rightarrow> int \<Rightarrow> service \<Rightarrow> reply \<times> service" where
  "applyOwnedScoreUpdate d now st =
     (let pid = suPlayerId d;
          sessionStep =
            (if truthy (suSessionId d)
             then (case sessionUpdatePlayerScore (the (suSessionId d)) pid
                          \<lparr>sdScore = suScore d, sdDelta = suDelta d, sdReason = suReason d\<rparr>
                          now (sessionsDb st) of
                     Inl e \<Rightarrow> None
                   | Inr (su, ss) \<Rightarrow> Some (st\<lparr>sessionsDb := ss\<rparr>))
             else Some st)
      in case sessionStep of
           None \<Rightarrow> (ErrorReply ''internal_error'' None, st)
         | Some st1 \<Rightarrow>
             (case updatePlayerScore pid (suScore d) (suGameMode d) now (playersDb st1) of
                (None, db) \<Rightarrow> (ErrorReply ''update_failed'' None, st1\<lparr>playersDb := db\<rparr>)
              | (Some updatedPlayer, db) \<Rightarrow>
                  (let st2 = st1\<lparr>playersDb := db\<rparr>;
                       st3 = (case connectedPlayers st2 pid of
                                None \<Rightarrow> st2
                              | Some ci \<Rightarrow>
                                  (let ci1 = ci\<lparr>lastActivity := now\<rparr>;
                                       ci2 = (if truthy (suGameMode d)
                                              then ci1\<lparr>ciGameMode := the (suGameMode d)\<rparr> else ci1)
                                   in st2\<lparr>connectedPlayers := (connectedPlayers st2)(pid \<mapsto> ci2)\<rparr>))
                   in (ScoreUpdatedReply updatedPlayer, st3))))"

definition handleScoreUpdate :: "string \<Rightarrow> scoreUpdate \<Rightarrow> int \<Rightarrow> service \<Rightarrow> reply \<times> service" where
  "handleScoreUpdate sock d now st =
     (if \<not> validScoreUpdate d then (ErrorReply ''validation_error'' None, st)
      else
        (let pid = suPlayerId d;
             (rateCheck, store) = validateScoreUpdateRate pid 60 now (scoreUpdateRateLimit st);
             st1 = st\<lparr>scoreUpdateRateLimit := store\<rparr>
         in if \<not> allowed rateCheck
            then (ErrorReply ''rate_limit_exceeded'' (resetTime rateCheck), st1)
            else if socketToPlayer st1 sock \<noteq> Some pid
            then (ErrorReply ''unauthorized'' None, st1)
            else applyOwnedScoreUpdate d now st1))"

section \<open>Sample data\<close>

definition alice :: player where
  "alice = \<lparr>playerId = ''p1'', username = ''alice'', region = ''NA'', currentScore = 1000,
             totalGamesPlayed = 1, averageScore = 1000, bestScore = 1000,
             currentGameMode = ''classic'', isOnline = True, lastActiveAt = 0,
             wins = 0, losses = 0, draws = 0\<rparr>"

definition bob :: player where
  "bob = \<lparr>playerId = ''p2'', username = ''bob'', region = ''GLOBAL'', currentScore = 1000,
           totalGamesPlayed = 4, averageScore = 250, bestScore = 1200,
           currentGameMode = ''ranked'', isOnline = False, lastActiveAt = 5,
           wins = 0, losses = 0, draws = 0\<rparr>"

definition queryFor :: "string option \<Rightarrow> options" where
  "queryFor r = \<lparr>optLimit = 50, optSkip = 0, optRegion = r, optGameMode = None, optOnlineOnly = False\<rparr>"

definition secondPage :: "string option \<Rightarrow> options" where
  "secondPage r = \<lparr>optLimit = 1, optSkip = 1, optRegion = r, optGameMode = None, optOnlineOnly = False\<rparr>"

definition seat :: "string \<Rightarrow> int \<Rightarrow> bool \<Rightarrow> participant" where
  "seat pid score act = \<lparr>spPlayerId = pid, spUsername = pid, initialScore = 0,
                          currentSessionScore = score, position = None, isActive = act\<rparr>"

definition match :: "sessionStatus \<Rightarrow> nat \<Rightarrow> participant list \<Rightarrow> gameSession" where
  "match st cap ps = \<lparr>sessionId = ''s1'', players = ps, gameMode = ''classic'',
                       sessionRegion = ''NA'', status = st, maxPlayers = cap,
                       startedAt = Some 0, endedAt = None, duration = None,
                       realTimeEvents = []\<rparr>"

definition duel :: gameSession where
  "duel = match Active 2 [seat ''p1'' 10 True, seat ''p2'' 5 False]"

definition joiner :: playerData where
  "joiner = \<lparr>pdPlayerId = ''p1'', pdUsername = ''alice'', pdCurrentScore = 1000\<rparr>"

definition lobby :: service where
  "lobby = \<lparr>connectedPlayers = Map.empty, socketToPlayer = Map.empty,
             roomSubscriptions = Map.empty, socketRooms = (\<lambda>_. {}),
             scoreUpdateRateLimit = Map.empty, playersDb = [alice, bob], sessionsDb = []\<rparr>"

definition hello :: joinRoom where
  "hello = \<lparr>jrPlayerId = ''p1'', jrRegion = None, jrGameMode = Some ''ranked''\<rparr>"

text \<open>The timestamps the rate-limit store holds for a player, none for an unknown one.\<close>

definition stored :: "rateStore \<Rightarrow> string \<Rightarrow> int list" where
  "stored store pid = (case store pid of None \<Rightarrow> [] | Some ts \<Rightarrow> ts)"

definition burst :: "(string \<times> int) list" where
  "burst = map (\<lambda>t. (''p1'', t)) [0..59]"

definition intruder :: scoreUpdate where
  "intruder = \<lparr>suPlayerId = ''p1'', suSessionId = None, suScore = 10, suGameMode = None,
               suDelta = None, suReason = None\<rparr>"

text \<open>
  The closed form of the position loop: a participant whose id is at index \<open>j\<close>
  of the list \<open>xs\<close> gets position \<open>i + j + 1\<close>, any other keeps its own.
\<close>

definition positioned :: "nat \<Rightarrow> participant list \<Rightarrow> participant \<Rightarrow> participant" where
  "positioned i xs p =
     (case findIndex (\<lambda>x. spPlayerId x = spPlayerId p) xs of
        None \<Rightarrow> p
      | Some j \<Rightarrow> p\<lparr>position := Some (i + j + 1)\<rparr>)"

definition quartet :: gameSession where
  "quartet = match Active 4 [seat ''p1'' 10 True, seat ''p2'' 20 False, seat ''p3'' 10 True, seat ''p4'' 20 True]"

definition oneLeft :: gameSession where
  "oneLeft = match Active 4 [seat ''p1'' 10 False, seat ''p2'' 5 True]"

section \<open>Derived player fields\<close>

lemma playerPreSave_bestScore: "bestScore (playerPreSave p) = max (bestScore p) (currentScore p)"
  by (simp add: playerPreSave_def Let_def)

lemma playerPreSave_currentScore: "currentScore (playerPreSave p) = currentScore p"
  by (simp add: playerPreSave_def Let_def)

lemma playerPreSave_totalGamesPlayed: "totalGamesPlayed (playerPreSave p) = totalGamesPlayed p"
  by (simp add: playerPreSave_def Let_def)

lemma playerPreSave_averageScore:
  "totalGamesPlayed p > 0 \<Longrightarrow>
   averageScore (playerPreSave p) = mathRoundDiv (currentScore p) (max (totalGamesPlayed p) 1)"
  by (simp add: playerPreSave_def Let_def)

lemma fst_playerSave: "fst (playerSave p ps) = playerPreSave p"
  by (simp add: playerSave_def Let_def)

text \<open>
  The writes that go through \<open>save\<close> re-establish both derived fields: after
  \<open>addGameResult\<close> the best score is the maximum of the old best score and the
  new current score, and the average is the rounded quotient.
\<close>

lemma addGameResult_derived:
  assumes "totalGamesPlayed p \<ge> 0" and "d = fst (addGameResult r c p ps)"
  shows "bestScore d = max (bestScore p) (currentScore d) \<and>
         averageScore d = mathRoundDiv (currentScore d) (max (totalGamesPlayed d) 1)"
proof -
  obtain q where q: "d = playerPreSave q" "bestScore q = bestScore p"
     "totalGamesPlayed q = totalGamesPlayed p + 1"
    using assms(2) unfolding addGameResult_def Let_def fst_playerSave
    by (cases "r = ''win''"; cases "r = ''loss''"; cases "r = ''draw''") simp_all
  then show ?thesis using assms(1)
    by (simp add: playerPreSave_bestScore playerPreSave_currentScore
        playerPreSave_totalGamesPlayed playerPreSave_averageScore)
qed

lemma findOneAndUpdate_result:
  "findOne pid ps = Some p \<Longrightarrow> fst (findOneAndUpdate pid f ps) = Some (f p)"
  by (induction ps) (auto simp: findOne_def split: prod.splits)

lemma findOneAndUpdate_none:
  "findOne pid ps = None \<Longrightarrow> findOneAndUpdate pid f ps = (None, ps)"
  by (induction ps) (auto simp: findOne_def split: prod.splits)

text \<open>
  The static \<open>updatePlayerScore\<close> writes the current score and leaves the best
  and the average score of the document as they were.
\<close>

lemma updatePlayerScore_keeps_derived:
  "findOne pid ps = Some p \<Longrightarrow> fst (updatePlayerScore pid n g now ps) = Some p' \<Longrightarrow>
   currentScore p' = n \<and> bestScore p' = bestScore p \<and> averageScore p' = averageScore p"
  by (auto simp: updatePlayerScore_def findOneAndUpdate_result applyScoreUpdate_def Let_def)

text \<open>
  C1. Every player write is claimed to re-establish the derived fields: the best
  score becomes the maximum of the previous best score and the current score,
  and the average score becomes \<open>round (currentScore / max (totalGamesPlayed, 1))\<close>,
  the score update \<open>updatePlayerScore\<close> included. Evaluated on a player with
  current, best and average score 1000 after one game, a score update to 5000
  returns a document with current score 5000 and two games played whose best
  score is still 1000, below the current score, and whose average score is
  still 1000, where the claim asks for 5000 and 2500.
\<close>

theorem updatePlayerScore_stale_derived_fields:
  "map_option (\<lambda>p. (currentScore p, totalGamesPlayed p, bestScore p, averageScore p))
     (fst (updatePlayerScore ''p1'' 5000 None 99 [alice])) = Some (5000, 2, 1000, 1000)
   \<and> max (bestScore alice) 5000 = 5000 \<and> mathRoundDiv 5000 (max 2 1) = 2500"
  by (simp add: updatePlayerScore_def alice_def applyScoreUpdate_def mathRoundDiv_def)

section \<open>Rank and region filter\<close>

text \<open>
  C2. For an existing player \<open>p\<close> and a filter (region, game mode), the rank is
  1 plus the number of players under that filter whose current score is strictly
  greater than that of \<open>p\<close>; two players with equal current score have the same
  rank under the same filter.
\<close>

theorem getPlayerRank_count_and_ties:
  assumes "findOne pid ps = Some p" and "findOne pid' ps = Some p'"
    and "currentScore p = currentScore p'"
  shows "getPlayerRank pid opts ps =
           Some (1 + length (filter (\<lambda>q. currentScore q > currentScore p
                     \<and> (truthy (optRegion opts) \<and> optRegion opts \<noteq> Some ''GLOBAL'' \<longrightarrow> Some (region q) = optRegion opts)
                     \<and> (truthy (optGameMode opts) \<longrightarrow> Some (currentGameMode q) = optGameMode opts)) ps))
         \<and> getPlayerRank pid' opts ps = getPlayerRank pid opts ps"
proof -
  have m: "matchesDoc (rankConditions x opts) = (\<lambda>q.
        (currentScore q > currentScore x
          \<and> (truthy (optRegion opts) \<and> optRegion opts \<noteq> Some ''GLOBAL'' \<longrightarrow> Some (region q) = optRegion opts)
          \<and> (truthy (optGameMode opts) \<longrightarrow> Some (currentGameMode q) = optGameMode opts)))" for x
    by (cases "optRegion opts"; cases "optGameMode opts")
       (auto simp: fun_eq_iff matchesDoc_def rankConditions_def noConditions_def Let_def)
  show ?thesis using assms
    by (simp add: getPlayerRank_def countDocuments_def m)
qed

theorem getPlayerRank_count_and_ties_witness:
  "findOne ''p1'' [alice, bob] = Some alice \<and> findOne ''p2'' [alice, bob] = Some bob
   \<and> currentScore alice = currentScore bob
   \<and> getPlayerRank ''p1'' (queryFor None) [alice, bob] = Some 1
   \<and> getPlayerRank ''p2'' (queryFor None) [alice, bob] = Some 1"
proof -
  have a: "findOne ''p1'' [alice, bob] = Some alice" by (simp add: findOne_def alice_def)
  have b: "findOne ''p2'' [alice, bob] = Some bob" by (simp add: findOne_def alice_def bob_def)
  have c: "currentScore alice = currentScore bob" by (simp add: alice_def bob_def)
  show ?thesis
    using a b c getPlayerRank_count_and_ties [OF a b c, of "queryFor None"]
    by (simp add: alice_def bob_def queryFor_def)
qed

lemma set_getLeaderboard_whole:
  assumes "optSkip opts = 0" and "length ps \<le> optLimit opts"
  shows "set (getLeaderboard opts ps) = set (findDocs (leaderboardConditions opts) ps)"
proof -
  have "length (findDocs (leaderboardConditions opts) ps) \<le> optLimit opts"
    using assms(2) by (simp add: findDocs_def le_trans [OF length_filter_le])
  then show ?thesis using assms(1) by (simp add: getLeaderboard_def Let_def)
qed

text \<open>
  C3. In every leaderboard query, whatever its skip and limit, and in every
  rank query, a region of GLOBAL or no region (none given, or the empty string)
  restricts nothing: the page is cut from the sorted list of the players of all
  regions that pass the other conditions, and the rank counts over all regions.
  Any other region restricts to exactly the players of that region. A player
  whose own region is GLOBAL is among the documents a query for region GLOBAL
  matches, and is in its result when the page covers them all.
\<close>

theorem region_filter_semantics:
  assumes "findOne pid ps = Some p"
  shows
   "(optRegion opts = None \<or> optRegion opts = Some [] \<or> optRegion opts = Some ''GLOBAL'' \<longrightarrow>
       getLeaderboard opts ps =
         (if optLimit opts = 0 then (\<lambda>xs. xs) else take (optLimit opts))
           (drop (optSkip opts)
             (sort_key (\<lambda>q. (- currentScore q, - lastActiveAt q))
               (filter (\<lambda>q. (truthy (optGameMode opts) \<longrightarrow> Some (currentGameMode q) = optGameMode opts)
                            \<and> (optOnlineOnly opts \<longrightarrow> isOnline q)) ps)))
       \<and> getPlayerRank pid opts ps =
         Some (length (filter (\<lambda>q. currentScore q > currentScore p
                      \<and> (truthy (optGameMode opts) \<longrightarrow> Some (currentGameMode q) = optGameMode opts)) ps) + 1))
    \<and> (optRegion opts = Some r \<and> r \<noteq> [] \<and> r \<noteq> ''GLOBAL'' \<longrightarrow>
       getLeaderboard opts ps =
         (if optLimit opts = 0 then (\<lambda>xs. xs) else take (optLimit opts))
           (drop (optSkip opts)
             (sort_key (\<lambda>q. (- currentScore q, - lastActiveAt q))
               (filter (\<lambda>q. region q = r
                            \<and> (truthy (optGameMode opts) \<longrightarrow> Some (currentGameMode q) = optGameMode opts)
                            \<and> (optOnlineOnly opts \<longrightarrow> isOnline q)) ps)))
       \<and> getPlayerRank pid opts ps =
         Some (length (filter (\<lambda>q. currentScore q > currentScore p \<and> region q = r
                      \<and> (truthy (optGameMode opts) \<longrightarrow> Some (currentGameMode q) = optGameMode opts)) ps) + 1))
    \<and> (optRegion opts = Some ''GLOBAL'' \<and> region p = ''GLOBAL''
         \<and> (truthy (optGameMode opts) \<longrightarrow> Some (currentGameMode p) = optGameMode opts)
         \<and> (optOnlineOnly opts \<longrightarrow> isOnline p)
       \<longrightarrow> p \<in> set (findDocs (leaderboardConditions opts) ps)
           \<and> (optSkip opts = 0 \<and> (optLimit opts = 0 \<or> length ps \<le> optLimit opts)
                \<longrightarrow> p \<in> set (getLeaderboard opts ps)))"
proof -
  have pin: "p \<in> set ps"
    using assms by (auto simp: findOne_def dest: find_Some_iff [THEN iffD1] nth_mem)
  have g: "optRegion opts = None \<or> optRegion opts = Some [] \<or> optRegion opts = Some ''GLOBAL'' \<Longrightarrow>
           matchesDoc (leaderboardConditions opts) = (\<lambda>q.
             (truthy (optGameMode opts) \<longrightarrow> Some (currentGameMode q) = optGameMode opts)
           \<and> (optOnlineOnly opts \<longrightarrow> isOnline q))"
    by (cases "optGameMode opts")
       (auto simp: fun_eq_iff matchesDoc_def leaderboardConditions_def noConditions_def Let_def)
  have g': "optRegion opts = None \<or> optRegion opts = Some [] \<or> optRegion opts = Some ''GLOBAL'' \<Longrightarrow>
           matchesDoc (rankConditions p opts) = (\<lambda>q. currentScore q > currentScore p
           \<and> (truthy (optGameMode opts) \<longrightarrow> Some (currentGameMode q) = optGameMode opts))"
    by (cases "optGameMode opts")
       (auto simp: fun_eq_iff matchesDoc_def rankConditions_def noConditions_def Let_def)
  have l: "optRegion opts = Some r \<and> r \<noteq> [] \<and> r \<noteq> ''GLOBAL'' \<Longrightarrow>
           matchesDoc (leaderboardConditions opts) = (\<lambda>q. region q = r
           \<and> (truthy (optGameMode opts) \<longrightarrow> Some (currentGameMode q) = optGameMode opts)
           \<and> (optOnlineOnly opts \<longrightarrow> isOnline q))"
    by (cases "optGameMode opts")
       (auto simp: fun_eq_iff matchesDoc_def leaderboardConditions_def noConditions_def Let_def)
  have l': "optRegion opts = Some r \<and> r \<noteq> [] \<and> r \<noteq> ''GLOBAL'' \<Longrightarrow>
           matchesDoc (rankConditions p opts) = (\<lambda>q. currentScore q > currentScore p \<and> region q = r
           \<and> (truthy (optGameMode opts) \<longrightarrow> Some (currentGameMode q) = optGameMode opts))"
    by (cases "optGameMode opts")
       (auto simp: fun_eq_iff matchesDoc_def rankConditions_def noConditions_def Let_def)
  have s: "getLeaderboard opts ps =
             (if optLimit opts = 0 then (\<lambda>xs. xs) else take (optLimit opts))
               (drop (optSkip opts)
                 (sort_key (\<lambda>q. (- currentScore q, - lastActiveAt q))
                   (filter (matchesDoc (leaderboardConditions opts)) ps)))"
    by (simp add: getLeaderboard_def findDocs_def Let_def)
  have k: "getPlayerRank pid opts ps = Some (length (filter (matchesDoc (rankConditions p opts)) ps) + 1)"
    using assms by (simp add: getPlayerRank_def countDocuments_def)
  have c1: "optRegion opts = None \<or> optRegion opts = Some [] \<or> optRegion opts = Some ''GLOBAL'' \<longrightarrow>
       getLeaderboard opts ps =
         (if optLimit opts = 0 then (\<lambda>xs. xs) else take (optLimit opts))
           (drop (optSkip opts)
             (sort_key (\<lambda>q. (- currentScore q, - lastActiveAt q))
               (filter (\<lambda>q. (truthy (optGameMode opts) \<longrightarrow> Some (currentGameMode q) = optGameMode opts)
                            \<and> (optOnlineOnly opts \<longrightarrow> isOnline q)) ps)))
       \<and> getPlayerRank pid opts ps =
         Some (length (filter (\<lambda>q. currentScore q > currentScore p
                      \<and> (truthy (optGameMode opts) \<longrightarrow> Some (currentGameMode q) = optGameMode opts)) ps) + 1)"
  proof
    assume h: "optRegion opts = None \<or> optRegion opts = Some [] \<or> optRegion opts = Some ''GLOBAL''"
    show "getLeaderboard opts ps =
         (if optLimit opts = 0 then (\<lambda>xs. xs) else take (optLimit opts))
           (drop (optSkip opts)
             (sort_key (\<lambda>q. (- currentScore q, - lastActiveAt q))
               (filter (\<lambda>q. (truthy (optGameMode opts) \<longrightarrow> Some (currentGameMode q) = optGameMode opts)
                            \<and> (optOnlineOnly opts \<longrightarrow> isOnline q)) ps)))
       \<and> getPlayerRank pid opts ps =
         Some (length (filter (\<lambda>q. currentScore q > currentScore p
                      \<and> (truthy (optGameMode opts) \<longrightarrow> Some (currentGameMode q) = optGameMode opts)) ps) + 1)"
      by (simp only: s k g [OF h] g' [OF h])
  qed
  have c2: "optRegion opts = Some r \<and> r \<noteq> [] \<and> r \<noteq> ''GLOBAL'' \<longrightarrow>
       getLeaderboard opts ps =
         (if optLimit opts = 0 then (\<lambda>xs. xs) else take (optLimit opts))
           (drop (optSkip opts)
             (sort_key (\<lambda>q. (- currentScore q, - lastActiveAt q))
               (filter (\<lambda>q. region q = r
                            \<and> (truthy (optGameMode opts) \<longrightarrow> Some (currentGameMode q) = optGameMode opts)
                            \<and> (optOnlineOnly opts \<longrightarrow> isOnline q)) ps)))
       \<and> getPlayerRank pid opts ps =
         Some (length (filter (\<lambda>q. currentScore q > currentScore p \<and> region q = r
                      \<and> (truthy (optGameMode opts) \<longrightarrow> Some (currentGameMode q) = optGameMode opts)) ps) + 1)"
  proof
    assume h: "optRegion opts = Some r \<and> r \<noteq> [] \<and> r \<noteq> ''GLOBAL''"
    show "getLeaderboard opts ps =
         (if optLimit opts = 0 then (\<lambda>xs. xs) else take (optLimit opts))
           (drop (optSkip opts)
             (sort_key (\<lambda>q. (- currentScore q, - lastActiveAt q))
               (filter (\<lambda>q. region q = r
                            \<and> (truthy (optGameMode opts) \<longrightarrow> Some (currentGameMode q) = optGameMode opts)
                            \<and> (optOnlineOnly opts \<longrightarrow> isOnline q)) ps)))
       \<and> getPlayerRank pid opts ps =
         Some (length (filter (\<lambda>q. currentScore q > currentScore p \<and> region q = r
                      \<and> (truthy (optGameMode opts) \<longrightarrow> Some (currentGameMode q) = optGameMode opts)) ps) + 1)"
      by (simp only: s k l [OF h] l' [OF h])
  qed
  have whole: "optSkip opts = 0 \<and> (optLimit opts = 0 \<or> length ps \<le> optLimit opts) \<Longrightarrow>
               set (getLeaderboard opts ps) = set (findDocs (leaderboardConditions opts) ps)"
  proof -
    assume h: "optSkip opts = 0 \<and> (optLimit opts = 0 \<or> length ps \<le> optLimit opts)"
    show ?thesis
    proof (cases "optLimit opts = 0")
      case True
      then show ?thesis using h by (simp add: getLeaderboard_def Let_def)
    next
      case False
      then have "length ps \<le> optLimit opts" using h by simp
      then show ?thesis using h by (simp add: set_getLeaderboard_whole)
    qed
  qed
  have c3: "optRegion opts = Some ''GLOBAL'' \<and> region p = ''GLOBAL''
         \<and> (truthy (optGameMode opts) \<longrightarrow> Some (currentGameMode p) = optGameMode opts)
         \<and> (optOnlineOnly opts \<longrightarrow> isOnline p)
       \<longrightarrow> p \<in> set (findDocs (leaderboardConditions opts) ps)
           \<and> (optSkip opts = 0 \<and> (optLimit opts = 0 \<or> length ps \<le> optLimit opts)
                \<longrightarrow> p \<in> set (getLeaderboard opts ps))"
  proof (intro impI conjI)
    assume h: "optRegion opts = Some ''GLOBAL'' \<and> region p = ''GLOBAL''
         \<and> (truthy (optGameMode opts) \<longrightarrow> Some (currentGameMode p) = optGameMode opts)
         \<and> (optOnlineOnly opts \<longrightarrow> isOnline p)"
    then have m: "matchesDoc (leaderboardConditions opts) p" using g by simp
    show f: "p \<in> set (findDocs (leaderboardConditions opts) ps)"
      using pin m by (simp add: findDocs_def)
    assume "optSkip opts = 0 \<and> (optLimit opts = 0 \<or> length ps \<le> optLimit opts)"
    from whole [OF this] f show "p \<in> set (getLeaderboard opts ps)" by simp
  qed
  from c1 c2 c3 show ?thesis by blast
qed

theorem region_filter_semantics_witness:
  "findOne ''p2'' [alice, bob] = Some bob
   \<and> optRegion (secondPage (Some ''GLOBAL'')) = Some ''GLOBAL'' \<and> region bob = ''GLOBAL''
   \<and> getLeaderboard (secondPage (Some ''GLOBAL'')) [alice, bob] = [alice]
   \<and> getLeaderboard (queryFor (Some ''GLOBAL'')) [alice, bob] = [bob, alice]
   \<and> bob \<in> set (getLeaderboard (queryFor (Some ''GLOBAL'')) [alice, bob])"
proof -
  have c: "findOne ''p2'' [alice, bob] = Some bob" by (simp add: findOne_def alice_def bob_def)
  have d: "optRegion (secondPage (Some ''GLOBAL'')) = Some ''GLOBAL''"
          "optGameMode (secondPage (Some ''GLOBAL'')) = None"
          "\<not> optOnlineOnly (secondPage (Some ''GLOBAL''))"
          "optLimit (secondPage (Some ''GLOBAL'')) = 1" "optSkip (secondPage (Some ''GLOBAL'')) = 1"
          "optRegion (queryFor (Some ''GLOBAL'')) = Some ''GLOBAL''"
          "optGameMode (queryFor (Some ''GLOBAL'')) = None"
          "\<not> optOnlineOnly (queryFor (Some ''GLOBAL''))"
          "optLimit (queryFor (Some ''GLOBAL'')) = 50" "optSkip (queryFor (Some ''GLOBAL'')) = 0"
    by (simp_all add: queryFor_def secondPage_def)
  have e: "region bob = ''GLOBAL''" by (simp add: bob_def)
  have srt: "sort_key (\<lambda>q. (- currentScore q, - lastActiveAt q)) [alice, bob] = [bob, alice]"
    by (simp add: alice_def bob_def)
  show ?thesis
    using region_filter_semantics [OF c, of "secondPage (Some ''GLOBAL'')" "''NA''"]
      region_filter_semantics [OF c, of "queryFor (Some ''GLOBAL'')" "''NA''"] c d e srt
    by simp
qed

section \<open>Joining a session\<close>

lemma find_spPlayerId: "pid \<in> set (map spPlayerId ps) \<Longrightarrow> find (\<lambda>p. spPlayerId p = pid) ps \<noteq> None"
  by (induction ps) auto

text \<open>
  C5, as stated: a join by a player already in the participant list of a waiting
  or active session succeeds as a no-op, also when the participant count equals
  \<open>maxPlayers\<close>. In an active session of capacity 2 with participants p1 and p2,
  the join of p1 fails with "Session is full": the capacity check comes before
  the look-up of the player.
\<close>

theorem joinSession_full_rejects_present_player:
  "status (match Active 2 [seat ''p1'' 0 True, seat ''p2'' 0 True]) = Active
   \<and> pdPlayerId joiner \<in> set (map spPlayerId (players (match Active 2 [seat ''p1'' 0 True, seat ''p2'' 0 True])))
   \<and> length (players (match Active 2 [seat ''p1'' 0 True, seat ''p2'' 0 True]))
       = maxPlayers (match Active 2 [seat ''p1'' 0 True, seat ''p2'' 0 True])
   \<and> joinSession ''s1'' joiner 7 [match Active 2 [seat ''p1'' 0 True, seat ''p2'' 0 True]] = Inl SessionFull"
  by (simp add: joinSession_def findSession_def joinFound_def match_def seat_def joiner_def)

text \<open>
  C5, amended: for a waiting or active session with fewer participants than
  \<open>maxPlayers\<close> and a player already in its participant list, the join returns
  the session as it is and leaves the store as it is: the participant count, the
  event log and the status are unchanged. When the participant count has reached
  \<open>maxPlayers\<close>, the join fails with "Session is full".
\<close>

theorem joinSession_idempotent_below_capacity:
  assumes "findSession sid [Waiting, Active] ss = Some s"
    and "pdPlayerId pd \<in> set (map spPlayerId (players s))"
  shows "(length (players s) < maxPlayers s \<longrightarrow> joinSession sid pd now ss = Inr (s, ss))
       \<and> (length (players s) \<ge> maxPlayers s \<longrightarrow> joinSession sid pd now ss = Inl SessionFull)"
  using assms find_spPlayerId [OF assms(2)]
  by (simp add: joinSession_def joinFound_def)

theorem joinSession_idempotent_below_capacity_witness:
  "findSession ''s1'' [Waiting, Active] [match Waiting 4 [seat ''p1'' 0 True]] = Some (match Waiting 4 [seat ''p1'' 0 True])
   \<and> pdPlayerId joiner \<in> set (map spPlayerId (players (match Waiting 4 [seat ''p1'' 0 True])))
   \<and> length (players (match Waiting 4 [seat ''p1'' 0 True])) < maxPlayers (match Waiting 4 [seat ''p1'' 0 True])
   \<and> joinSession ''s1'' joiner 7 [match Waiting 4 [seat ''p1'' 0 True]]
        = Inr (match Waiting 4 [seat ''p1'' 0 True], [match Waiting 4 [seat ''p1'' 0 True]])"
proof -
  have a: "findSession ''s1'' [Waiting, Active] [match Waiting 4 [seat ''p1'' 0 True]] = Some (match Waiting 4 [seat ''p1'' 0 True])"
    by (simp add: findSession_def match_def)
  have b: "pdPlayerId joiner \<in> set (map spPlayerId (players (match Waiting 4 [seat ''p1'' 0 True])))"
    by (simp add: match_def seat_def joiner_def)
  have c: "length (players (match Waiting 4 [seat ''p1'' 0 True])) < maxPlayers (match Waiting 4 [seat ''p1'' 0 True])"
    by (simp add: match_def)
  show ?thesis
    using joinSession_idempotent_below_capacity [OF a b, of 7] a b c by simp
qed

section \<open>Completed sessions\<close>

text \<open>
  Join, score update and end look the session up by status, so none of them
  touches a completed session.
\<close>

lemma findSession_completed:
  assumes "\<forall>s \<in> set ss. sessionId s = sid \<longrightarrow> status s = Completed"
  shows "findSession sid [Waiting, Active] ss = None" and "findSession sid [Active] ss = None"
    and "find (\<lambda>s. sessionId s = sid \<and> status s = Active \<and> pid \<in> set (map spPlayerId (players s))) ss = None"
  using assms by (auto simp: findSession_def find_None_iff)

lemma completed_refused_elsewhere:
  assumes "\<forall>s \<in> set ss. sessionId s = sid \<longrightarrow> status s = Completed"
  shows "joinSession sid pd now ss = Inl NotFoundOrNotJoinable"
    and "sessionUpdatePlayerScore sid pid sd now ss = Inl ActiveSessionNotFoundForPlayer"
    and "endSession sid now ss = Inl ActiveSessionNotFound"
  unfolding joinSession_def sessionUpdatePlayerScore_def endSession_def
    findSession_completed [OF assms]
  by simp_all

text \<open>
  C6. The status completed is claimed terminal: no session operation changes
  the status of a completed session, its end time and duration are set once,
  and a leave that drops the number of active participants to zero does not
  move a completed session to abandoned. Evaluated on an active session started
  at time 0 in which p2 has left and p1 is active: the end at 100 seconds
  completes it with that end time and a duration of 100 seconds; the leave of
  p1 at 200 seconds then stores the same session with status abandoned and an
  end time of 200 seconds.
\<close>

theorem leave_abandons_completed_session:
  "map_sum id
     (\<lambda>(s, ss). (status s, endedAt s, duration s,
                 map_option (\<lambda>(s', ss'). (status s', endedAt s', map status ss'))
                   (leaveSession ''s1'' ''p1'' 200000 ss)))
     (endSession ''s1'' 100000 [duel])
   = Inr (Completed, Some 100000, Some 100, Some (Abandoned, Some 200000, [Abandoned]))"
  by (simp add: endSession_def findSession_def endFound_def sortedPlayers_def
        leaveSession_def removePlayer_def removePlayerDoc_def sessionSave_def
        sessionPreSave_def mathRoundDiv_def duel_def match_def seat_def Let_def)

section \<open>Positional bonus\<close>

lemma mathRoundDiv_floor:
  "d > 0 \<Longrightarrow> mathRoundDiv n d = \<lfloor>real_of_int n / real_of_int d + 1 / 2\<rfloor>"
proof -
  assume d: "d > 0"
  have "real_of_int n / real_of_int d + 1 / 2 = real_of_int (2 * n + d) / real_of_int (2 * d)"
    using d by (simp add: field_simps)
  then show ?thesis
    by (simp only: mathRoundDiv_def floor_divide_of_int_eq)
qed

lemma calculatePositionBonus_small: "n < 2 \<Longrightarrow> calculatePositionBonus pos n = 0"
  by (simp add: calculatePositionBonus_def)

text \<open>
  C9. The bonus of a participant is claimed to equal
  \<open>round (100 * (totalPlayers - position + 1) / totalPlayers)\<close>. Evaluated for
  position 18 among 40 participants, the code returns 57: the quotient 23 / 40
  is rounded to the double below 0.575, its product with 100 is rounded to the
  double below 57.5, and \<open>Math.round\<close> of that is 57. The formula of the claim
  gives \<open>round 57.5 = 58\<close>.
\<close>

theorem positionBonus_double_rounding:
  "calculatePositionBonus 18 40 = 57 \<and> mathRoundDiv (100 * (40 - 18 + 1)) 40 = 58
   \<and> \<lfloor>100 * (40 - 18 + 1) / (40 :: real) + 1 / 2\<rfloor> = 58"
  by (simp add: calculatePositionBonus_def roundToDouble_def timesDouble_def mathRound_def
        roundHalfEven_def bitLength.simps Let_def mathRoundDiv_def)

section \<open>Broadcast channels\<close>

text \<open>
  C8, as stated: the channel list holds \<open>region:{region}:gamemode:{mode}\<close>
  whenever a region and a mode are both given. For region GLOBAL and mode
  classic both are given and the list is \<open>global\<close>, \<open>gamemode:classic\<close>.
\<close>

theorem generateRoomNames_global_with_mode:
  "truthy (Some ''GLOBAL'') \<and> truthy (Some ''classic'')
   \<and> generateRoomNames (Some ''GLOBAL'') (Some ''classic'') = [''global'', ''gamemode:classic'']
   \<and> ''region:GLOBAL:gamemode:classic'' \<notin> set (generateRoomNames (Some ''GLOBAL'') (Some ''classic''))"
  by (simp add: generateRoomNames_def)

lemma set_generateRoomNames:
  "set (generateRoomNames rgn gm) =
     {''global''}
     \<union> (if truthy rgn \<and> rgn \<noteq> Some ''GLOBAL'' then {''region:'' @ the rgn} else {})
     \<union> (if truthy gm then {''gamemode:'' @ the gm} else {})
     \<union> (if truthy rgn \<and> rgn \<noteq> Some ''GLOBAL'' \<and> truthy gm
         then {''region:'' @ the rgn @ '':gamemode:'' @ the gm} else {})"
  by (auto simp: generateRoomNames_def Let_def)

lemma updateOnlineStatus_keeps:
  "region (fst (updateOnlineStatus b now p ps)) = region p"
  "currentGameMode (fst (updateOnlineStatus b now p ps)) = currentGameMode p"
  by (simp_all add: updateOnlineStatus_def playerSave_def playerPreSave_def Let_def)

lemma handlePlayerJoin_state:
  assumes "validJoinRoom d" and "findOne (jrPlayerId d) (playersDb st) = Some pl"
    and "rooms = set (generateRoomNames (Some (orElse (jrRegion d) (region pl)))
                        (Some (orElse (jrGameMode d) (currentGameMode pl))))"
    and "st1 = snd (handlePlayerJoin sock d now st)"
  shows "roomSubscriptions st1 (jrPlayerId d) = Some rooms"
    and "socketRooms st1 sock = socketRooms st sock \<union> rooms"
    and "socketToPlayer st1 sock = Some (jrPlayerId d)"
  using assms updateOnlineStatus_keeps [of True now pl "playersDb st"]
  by (simp_all add: handlePlayerJoin_def Let_def split: prod.splits)

lemma handleLeaderboardUnsubscription_state:
  assumes "socketToPlayer st sock = Some pid" and "pid \<noteq> []"
    and "st2 = snd (handleLeaderboardUnsubscription sock rgn gm st)"
  shows "roomSubscriptions st2 pid = Some (currentRoomsOf st pid - set (generateRoomNames rgn gm))"
    and "socketRooms st2 sock = socketRooms st sock - set (generateRoomNames rgn gm)"
  using assms by (simp_all add: handleLeaderboardUnsubscription_def Let_def)

text \<open>
  C8, amended: the channel list of a pair (region, game mode) is \<open>global\<close>;
  plus \<open>region:{region}\<close> if a region is given and is not GLOBAL; plus
  \<open>gamemode:{mode}\<close> if a mode is given; plus \<open>region:{region}:gamemode:{mode}\<close>
  if both are given and the region is not GLOBAL. On a successful join the
  connection joins exactly the channels of the pair the handshake works with
  (the region and mode of the payload, those of the player where the payload
  has none), and they become the player's subscriptions; unsubscribing with
  that pair removes exactly that set and leaves no subscription.
\<close>

theorem join_channels_roundtrip:
  assumes "validJoinRoom d" and "findOne (jrPlayerId d) (playersDb st) = Some pl"
    and "r = orElse (jrRegion d) (region pl)" and "g = orElse (jrGameMode d) (currentGameMode pl)"
    and "st1 = snd (handlePlayerJoin sock d now st)"
    and "st2 = snd (handleLeaderboardUnsubscription sock (Some r) (Some g) st1)"
  shows "set (generateRoomNames rgn gm) =
           {''global''}
           \<union> (if truthy rgn \<and> rgn \<noteq> Some ''GLOBAL'' then {''region:'' @ the rgn} else {})
           \<union> (if truthy gm then {''gamemode:'' @ the gm} else {})
           \<union> (if truthy rgn \<and> rgn \<noteq> Some ''GLOBAL'' \<and> truthy gm
               then {''region:'' @ the rgn @ '':gamemode:'' @ the gm} else {})
         \<and> roomSubscriptions st1 (jrPlayerId d) = Some (set (generateRoomNames (Some r) (Some g)))
         \<and> socketRooms st1 sock = socketRooms st sock \<union> set (generateRoomNames (Some r) (Some g))
         \<and> roomSubscriptions st2 (jrPlayerId d) = Some {}
         \<and> socketRooms st2 sock = socketRooms st1 sock - set (generateRoomNames (Some r) (Some g))"
proof -
  note j = handlePlayerJoin_state [OF assms(1,2) refl assms(5)]
  have j1: "roomSubscriptions st1 (jrPlayerId d) = Some (set (generateRoomNames (Some r) (Some g)))"
    and j2: "socketRooms st1 sock = socketRooms st sock \<union> set (generateRoomNames (Some r) (Some g))"
    and j3: "socketToPlayer st1 sock = Some (jrPlayerId d)"
    using j assms(3,4) by simp_all
  have ne: "jrPlayerId d \<noteq> []" using assms(1) by (simp add: validJoinRoom_def)
  note u = handleLeaderboardUnsubscription_state [OF j3 ne assms(6)]
  have u1: "roomSubscriptions st2 (jrPlayerId d) = Some {}"
    using u(1) j1 by (simp add: currentRoomsOf_def)
  show ?thesis using set_generateRoomNames [of rgn gm] j1 j2 u1 u(2) by simp
qed

theorem join_channels_roundtrip_witness:
  "validJoinRoom hello \<and> findOne (jrPlayerId hello) (playersDb lobby) = Some alice
   \<and> roomSubscriptions (snd (handlePlayerJoin ''sock1'' hello 5 lobby)) ''p1''
       = Some {''global'', ''region:NA'', ''gamemode:ranked'', ''region:NA:gamemode:ranked''}
   \<and> roomSubscriptions
        (snd (handleLeaderboardUnsubscription ''sock1'' (Some ''NA'') (Some ''ranked'')
               (snd (handlePlayerJoin ''sock1'' hello 5 lobby)))) ''p1'' = Some {}"
proof -
  have a: "validJoinRoom hello"
    by (simp add: validJoinRoom_def hello_def optionalIn_def gameModes_def)
  have b: "findOne (jrPlayerId hello) (playersDb lobby) = Some alice"
    by (simp add: findOne_def hello_def lobby_def alice_def)
  have c: "''NA'' = orElse (jrRegion hello) (region alice)"
    by (simp add: orElse_def hello_def alice_def)
  have d: "''ranked'' = orElse (jrGameMode hello) (currentGameMode alice)"
    by (simp add: orElse_def hello_def)
  show ?thesis
    using join_channels_roundtrip [OF a b c d refl refl, of None None "''sock1''" 5] a b
    by (auto simp: generateRoomNames_def hello_def)
qed

section \<open>Rate limiting\<close>

lemma validate_allowed:
  "allowed (fst (validateScoreUpdateRate pid m now store)) \<longleftrightarrow>
     int (length (filter (\<lambda>t. t > now - 60 * 1000) (stored store pid))) < m"
  by (auto simp: validateScoreUpdateRate_def stored_def Let_def split: option.splits)

lemma validate_resetTime:
  "\<not> allowed (fst (validateScoreUpdateRate pid m now store)) \<Longrightarrow>
   resetTime (fst (validateScoreUpdateRate pid m now store)) =
     (case filter (\<lambda>t. t > now - 60 * 1000) (stored store pid) of
        [] \<Rightarrow> None | t # _ \<Rightarrow> Some (ceilDiv1000 (t + 60 * 1000 - now)))"
  by (auto simp: validateScoreUpdateRate_def stored_def Let_def split: option.splits if_splits)

lemma validate_stored_same:
  "stored (snd (validateScoreUpdateRate pid m now store)) pid =
     filter (\<lambda>t. t > now - 60 * 1000) (stored store pid)
     @ (if allowed (fst (validateScoreUpdateRate pid m now store)) then [now] else [])"
  by (auto simp: validateScoreUpdateRate_def stored_def Let_def split: option.splits)

lemma validate_stored_other:
  "q \<noteq> pid \<Longrightarrow> stored (snd (validateScoreUpdateRate q m now store)) pid = stored store pid"
  by (auto simp: validateScoreUpdateRate_def stored_def Let_def split: option.splits)

lemma filter_window_mono:
  "t \<le> now \<Longrightarrow> filter (\<lambda>x. x > now - 60 * 1000) (filter (\<lambda>x. x > t - 60 * 1000) xs)
     = filter (\<lambda>x. x > now - 60 * 1000) (xs :: int list)"
  by (induction xs) auto

lemma runAttempts_window:
  assumes "sorted (map snd as @ [now])"
  shows "filter (\<lambda>t. t > now - 60 * 1000) (stored (snd (runAttempts m store as)) pid) =
           filter (\<lambda>t. t > now - 60 * 1000) (stored store pid)
           @ acceptedInWindow pid now (fst (runAttempts m store as))"
  using assms
proof (induction as arbitrary: store)
  case Nil
  then show ?case by (simp add: acceptedInWindow_def)
next
  case (Cons a as)
  obtain q t where a: "a = (q, t)" by (cases a)
  define r where "r = fst (validateScoreUpdateRate q m t store)"
  define store1 where "store1 = snd (validateScoreUpdateRate q m t store)"
  have t: "t \<le> now" and srt: "sorted (map snd as @ [now])"
    using Cons.prems by (auto simp: a sorted_append)
  have run: "runAttempts m store (a # as) =
               ((q, t, allowed r) # fst (runAttempts m store1 as), snd (runAttempts m store1 as))"
    by (simp add: a r_def store1_def split: prod.splits)
  have step: "filter (\<lambda>x. x > now - 60 * 1000) (stored store1 pid) =
                filter (\<lambda>x. x > now - 60 * 1000) (stored store pid)
                @ (if q = pid \<and> allowed r \<and> t > now - 60 * 1000 then [t] else [])"
  proof (cases "q = pid")
    case True
    then show ?thesis
      using filter_window_mono [OF t, of "stored store pid"]
      by (simp add: store1_def r_def validate_stored_same)
  next
    case False
    then show ?thesis by (simp add: store1_def validate_stored_other)
  qed
  show ?case
    using Cons.IH [OF srt, of store1] step
    by (simp add: run acceptedInWindow_def)
qed

text \<open>
  C7. With at most 60 updates per minute, for every player and every history of
  attempts made in the order of the clock: an attempt is rejected as rate
  limited, with a reset time, if and only if 60 or more earlier attempts of
  that player were allowed (and so recorded) within the 60 seconds before it.
  So the 61st attempt within such a window is rejected, and the first attempt
  made once the oldest recorded timestamp has left the window is allowed again.
\<close>

theorem rate_limit_window:
  assumes "sorted (map snd as @ [now])"
    and "rs = fst (runAttempts 60 Map.empty as)"
    and "store = snd (runAttempts 60 Map.empty as)"
    and "r = fst (validateScoreUpdateRate pid 60 now store)"
  shows "(\<not> allowed r \<longleftrightarrow> length (acceptedInWindow pid now rs) \<ge> 60)
       \<and> (\<not> allowed r \<longrightarrow>
            resetTime r = Some (ceilDiv1000 (hd (acceptedInWindow pid now rs) + 60 * 1000 - now)))"
proof -
  have w: "filter (\<lambda>t. t > now - 60 * 1000) (stored store pid) = acceptedInWindow pid now rs"
    using runAttempts_window [OF assms(1), of 60 Map.empty pid]
    by (simp add: assms(2,3) stored_def)
  have a: "\<not> allowed r \<longleftrightarrow> length (acceptedInWindow pid now rs) \<ge> 60"
    using validate_allowed [of pid 60 now store] w by (simp add: assms(4) not_less)
  have b: "resetTime r = Some (ceilDiv1000 (hd (acceptedInWindow pid now rs) + 60 * 1000 - now))"
    if "\<not> allowed r"
  proof -
    have "acceptedInWindow pid now rs \<noteq> []" using that a by auto
    then show ?thesis
      using validate_resetTime [of pid 60 now store] that w
      by (cases "acceptedInWindow pid now rs") (simp_all add: assms(4))
  qed
  from a b show ?thesis by blast
qed

theorem rate_limit_window_witness:
  "sorted (map snd burst @ [59999]) \<and> sorted (map snd burst @ [60000])
   \<and> length (acceptedInWindow ''p1'' 59999 (fst (runAttempts 60 Map.empty burst))) = 60
   \<and> \<not> allowed (fst (validateScoreUpdateRate ''p1'' 60 59999 (snd (runAttempts 60 Map.empty burst))))
   \<and> length (acceptedInWindow ''p1'' 60000 (fst (runAttempts 60 Map.empty burst))) = 59
   \<and> allowed (fst (validateScoreUpdateRate ''p1'' 60 60000 (snd (runAttempts 60 Map.empty burst))))"
proof -
  have a: "sorted (map snd burst @ [59999])" and b: "sorted (map snd burst @ [60000])"
    by (simp_all add: burst_def upto.simps)
  have rs: "fst (runAttempts 60 Map.empty burst) = map (\<lambda>t. (''p1'', t, True)) [0..59]"
    by (simp add: burst_def upto.simps validateScoreUpdateRate_def Let_def)
  have c: "length (acceptedInWindow ''p1'' 59999 (fst (runAttempts 60 Map.empty burst))) = 60"
    and d: "length (acceptedInWindow ''p1'' 60000 (fst (runAttempts 60 Map.empty burst))) = 59"
    by (simp_all add: rs acceptedInWindow_def upto.simps)
  show ?thesis
    using rate_limit_window [OF a refl refl refl, of "''p1''"]
      rate_limit_window [OF b refl refl refl, of "''p1''"] a b c d
    by simp
qed


section \<open>Rate limit and ownership in the score handler\<close>

lemma applyOwnedScoreUpdate_rate:
  "scoreUpdateRateLimit (snd (applyOwnedScoreUpdate d now st)) = scoreUpdateRateLimit st"
  by (simp add: applyOwnedScoreUpdate_def Let_def split: option.splits sum.splits prod.splits)

lemma applyOwnedScoreUpdate_missing_player:
  assumes "\<not> truthy (suSessionId d)" and "findOne (suPlayerId d) (playersDb st) = None"
  shows "applyOwnedScoreUpdate d now st = (ErrorReply ''update_failed'' None, st)"
  using assms
  by (simp add: applyOwnedScoreUpdate_def Let_def updatePlayerScore_def findOneAndUpdate_none)

text \<open>
  C10. In the live score-update handler the rate-limit check runs, and records
  the timestamp of the attempt, before the ownership check. Whatever the handler
  replies after an allowed check, the store of the target player holds the
  recent timestamps followed by this one: nothing is rolled back. In particular
  an update by a connection that does not own the player is answered
  \<open>unauthorized\<close> with no other state changed, and an update for a player
  that does not exist is answered \<open>update_failed\<close>, and both have used a slot.
\<close>

theorem rate_slot_consumed_before_ownership:
  assumes "validScoreUpdate d"
    and "rc = fst (validateScoreUpdateRate (suPlayerId d) 60 now (scoreUpdateRateLimit st))"
    and "allowed rc"
    and "st' = snd (handleScoreUpdate sock d now st)"
  shows "scoreUpdateRateLimit st' (suPlayerId d) =
           Some (filter (\<lambda>t. t > now - 60 * 1000) (stored (scoreUpdateRateLimit st) (suPlayerId d)) @ [now])
       \<and> (socketToPlayer st sock \<noteq> Some (suPlayerId d) \<longrightarrow>
            fst (handleScoreUpdate sock d now st) = ErrorReply ''unauthorized'' None
            \<and> playersDb st' = playersDb st \<and> sessionsDb st' = sessionsDb st)
       \<and> (socketToPlayer st sock = Some (suPlayerId d) \<and> \<not> truthy (suSessionId d)
            \<and> findOne (suPlayerId d) (playersDb st) = None \<longrightarrow>
            fst (handleScoreUpdate sock d now st) = ErrorReply ''update_failed'' None)"
proof -
  define store where "store = snd (validateScoreUpdateRate (suPlayerId d) 60 now (scoreUpdateRateLimit st))"
  define st1 where "st1 = st\<lparr>scoreUpdateRateLimit := store\<rparr>"
  have h: "handleScoreUpdate sock d now st =
             (if socketToPlayer st sock \<noteq> Some (suPlayerId d)
              then (ErrorReply ''unauthorized'' None, st1)
              else applyOwnedScoreUpdate d now st1)"
    using assms(1) assms(3) [unfolded assms(2)]
    by (simp add: handleScoreUpdate_def Let_def case_prod_beta store_def st1_def)
  have s: "store (suPlayerId d) =
             Some (filter (\<lambda>t. t > now - 60 * 1000) (stored (scoreUpdateRateLimit st) (suPlayerId d)) @ [now])"
    using assms(3)
    by (auto simp: store_def assms(2) validateScoreUpdateRate_def stored_def Let_def
             split: option.splits if_splits)
  have r: "scoreUpdateRateLimit st' = store"
    by (simp add: assms(4) h applyOwnedScoreUpdate_rate st1_def)
  have u: "socketToPlayer st sock \<noteq> Some (suPlayerId d) \<longrightarrow>
            fst (handleScoreUpdate sock d now st) = ErrorReply ''unauthorized'' None
            \<and> playersDb st' = playersDb st \<and> sessionsDb st' = sessionsDb st"
    by (simp add: assms(4) h st1_def)
  have m: "socketToPlayer st sock = Some (suPlayerId d) \<and> \<not> truthy (suSessionId d)
            \<and> findOne (suPlayerId d) (playersDb st) = None \<longrightarrow>
            fst (handleScoreUpdate sock d now st) = ErrorReply ''update_failed'' None"
    using applyOwnedScoreUpdate_missing_player [of d st1 now]
    by (simp add: h st1_def)
  from r s u m show ?thesis by simp
qed

theorem rate_slot_consumed_before_ownership_witness:
  "validScoreUpdate intruder
   \<and> allowed (fst (validateScoreUpdateRate (suPlayerId intruder) 60 5 (scoreUpdateRateLimit lobby)))
   \<and> socketToPlayer lobby ''sock9'' \<noteq> Some (suPlayerId intruder)
   \<and> fst (handleScoreUpdate ''sock9'' intruder 5 lobby) = ErrorReply ''unauthorized'' None
   \<and> scoreUpdateRateLimit (snd (handleScoreUpdate ''sock9'' intruder 5 lobby)) ''p1'' = Some [5]"
proof -
  have a: "validScoreUpdate intruder"
    by (simp add: validScoreUpdate_def intruder_def optionalIn_def)
  have b: "allowed (fst (validateScoreUpdateRate (suPlayerId intruder) 60 5 (scoreUpdateRateLimit lobby)))"
    by (simp add: validateScoreUpdateRate_def lobby_def Let_def)
  have c: "socketToPlayer lobby ''sock9'' \<noteq> Some (suPlayerId intruder)"
    by (simp add: lobby_def)
  show ?thesis
    using rate_slot_consumed_before_ownership [OF a refl b refl, of "''sock9''"] a b c
    by (simp add: stored_def lobby_def intruder_def)
qed

section \<open>Final positions\<close>

lemma findIndex_None_iff: "findIndex P xs = None \<longleftrightarrow> (\<forall>x \<in> set xs. \<not> P x)"
  by (induction xs) (auto split: option.splits)

lemma findIndex_Some_less: "findIndex P xs = Some i \<Longrightarrow> i < length xs \<and> P (xs ! i)"
  by (induction xs arbitrary: i) (auto split: option.splits if_splits)

lemma findIndex_nth_distinct:
  "distinct (map f xs) \<Longrightarrow> j < length xs \<Longrightarrow> findIndex (\<lambda>y. f y = f (xs ! j)) xs = Some j"
proof (induction xs arbitrary: j)
  case Nil
  then show ?case by simp
next
  case (Cons x xs)
  show ?case
  proof (cases j)
    case 0
    then show ?thesis by simp
  next
    case (Suc k)
    then have k: "k < length xs" using Cons.prems(2) by simp
    then have "f (xs ! k) \<in> f ` set xs" by simp
    then have "f x \<noteq> f (xs ! k)" using Cons.prems(1) by (fastforce simp: image_iff)
    then show ?thesis using Cons.IH [of k] Cons.prems(1) k Suc by simp
  qed
qed

lemma update_first_eq_map:
  "distinct (map f ps) \<Longrightarrow> findIndex (\<lambda>p. f p = a) ps = Some k \<Longrightarrow>
   ps[k := g (ps ! k)] = map (\<lambda>p. if f p = a then g p else p) ps"
proof (induction ps arbitrary: k)
  case Nil
  then show ?case by simp
next
  case (Cons x xs)
  show ?case
  proof (cases "f x = a")
    case True
    then have k: "k = 0" using Cons.prems(2) by simp
    have "\<forall>y \<in> set xs. f y \<noteq> a" using Cons.prems(1) True by (fastforce simp: image_iff)
    then have "map (\<lambda>p. if f p = a then g p else p) xs = xs" by (simp add: map_idI)
    then show ?thesis using True k by simp
  next
    case False
    then obtain k' where k': "findIndex (\<lambda>p. f p = a) xs = Some k'" "k = Suc k'"
      using Cons.prems(2) by (auto split: option.splits)
    then show ?thesis using False Cons.IH [of k'] Cons.prems(1) by simp
  qed
qed

lemma spPlayerId_positioned [simp]: "spPlayerId (positioned i xs p) = spPlayerId p"
  by (simp add: positioned_def split: option.splits)

lemma assignPositions_map:
  "distinct (map spPlayerId ps) \<Longrightarrow> distinct (map spPlayerId xs) \<Longrightarrow>
   spPlayerId ` set xs \<subseteq> spPlayerId ` set ps \<Longrightarrow>
   assignPositions i xs ps = Some (map (positioned i xs) ps)"
proof (induction xs arbitrary: i ps)
  case Nil
  then show ?case by (simp add: positioned_def)
next
  case (Cons x xs)
  let ?h = "\<lambda>p. if spPlayerId p = spPlayerId x then p\<lparr>position := Some (i + 1)\<rparr> else p"
  have "\<exists>p \<in> set ps. spPlayerId p = spPlayerId x" using Cons.prems(3) by auto
  then obtain k where k: "findIndex (\<lambda>p. spPlayerId p = spPlayerId x) ps = Some k"
    using findIndex_None_iff [of "\<lambda>p. spPlayerId p = spPlayerId x" ps] by (cases "findIndex (\<lambda>p. spPlayerId p = spPlayerId x) ps") auto
  have upd: "ps[k := (ps ! k)\<lparr>position := Some (i + 1)\<rparr>] = map ?h ps"
    using update_first_eq_map [OF Cons.prems(1) k, of "\<lambda>p. p\<lparr>position := Some (i + 1)\<rparr>"] by simp
  have ids: "map spPlayerId (map ?h ps) = map spPlayerId ps" by (simp add: comp_def)
  have d1: "distinct (map spPlayerId (map ?h ps))" using Cons.prems(1) by (simp only: ids)
  have d2: "distinct (map spPlayerId xs)" using Cons.prems(2) by simp
  have "spPlayerId ` set (map ?h ps) = set (map spPlayerId (map ?h ps))"
    by (simp only: set_map)
  also have "\<dots> = set (map spPlayerId ps)" by (simp only: ids)
  also have "\<dots> = spPlayerId ` set ps" by (simp only: set_map)
  finally have img: "spPlayerId ` set (map ?h ps) = spPlayerId ` set ps" .
  have sub: "spPlayerId ` set xs \<subseteq> spPlayerId ` set (map ?h ps)"
    using Cons.prems(3) unfolding img by simp
  have fresh: "\<forall>y \<in> set xs. spPlayerId y \<noteq> spPlayerId x"
    using Cons.prems(2) by (fastforce simp: image_iff)
  have pt: "positioned (i + 1) xs (?h p) = positioned i (x # xs) p" for p
  proof (cases "spPlayerId p = spPlayerId x")
    case True
    then have "findIndex (\<lambda>y. spPlayerId y = spPlayerId p) xs = None"
      using fresh by (simp add: findIndex_None_iff)
    then show ?thesis using True by (simp add: positioned_def)
  next
    case False
    then show ?thesis by (simp add: positioned_def split: option.splits)
  qed
  have "assignPositions i (x # xs) ps = assignPositions (i + 1) xs (map ?h ps)"
    using k upd by simp
  also have "\<dots> = Some (map (positioned (i + 1) xs) (map ?h ps))"
    by (rule Cons.IH [OF d1 d2 sub])
  also have "\<dots> = Some (map (positioned i (x # xs)) ps)"
    by (simp only: map_map comp_def pt)
  finally show ?case .
qed


lemma positioned_nth:
  assumes "distinct (map spPlayerId xs)" and "j < length xs"
  shows "positioned i xs (xs ! j) = (xs ! j)\<lparr>position := Some (i + j + 1)\<rparr>"
  using findIndex_nth_distinct [OF assms]
  by (simp add: positioned_def)

lemma sortedPlayers_props:
  "set (sortedPlayers ps) = set ps" "length (sortedPlayers ps) = length ps"
  "sorted (map (\<lambda>p. - currentSessionScore p) (sortedPlayers ps))"
  "distinct (map spPlayerId ps) \<Longrightarrow> distinct (map spPlayerId (sortedPlayers ps))"
  by (simp_all add: sortedPlayers_def distinct_map)

lemma assignPositions_sorted:
  assumes "distinct (map spPlayerId ps)"
  shows "assignPositions 0 (sortedPlayers ps) ps = Some (map (positioned 0 (sortedPlayers ps)) ps)"
  by (rule assignPositions_map [OF assms sortedPlayers_props(4) [OF assms]])
     (simp add: sortedPlayers_props(1))

lemma positions_bijective:
  assumes "distinct (map spPlayerId ps)" and "ps' = map (positioned 0 (sortedPlayers ps)) ps"
  shows "set (map position ps') = Some ` {1..length ps}" and "distinct (map position ps')"
proof -
  let ?xs = "sortedPlayers ps"
  have dx: "distinct (map spPlayerId ?xs)" by (rule sortedPlayers_props(4) [OF assms(1)])
  have nth: "positioned 0 ?xs (?xs ! j) = (?xs ! j)\<lparr>position := Some (j + 1)\<rparr>" if "j < length ps" for j
    using positioned_nth [OF dx, of j 0] that by (simp add: sortedPlayers_props(2))
  show s: "set (map position ps') = Some ` {1..length ps}"
  proof (rule set_eqI, rule iffI)
    fix v assume "v \<in> set (map position ps')"
    then obtain p where p: "p \<in> set ps" "v = position (positioned 0 ?xs p)"
      by (auto simp: assms(2))
    then have "p \<in> set ?xs" by (simp add: sortedPlayers_props(1))
    then obtain j where j: "j < length ?xs" "?xs ! j = p" by (auto simp: in_set_conv_nth)
    then have "v = Some (j + 1)" using nth [of j] p(2) by (simp add: sortedPlayers_props(2))
    then show "v \<in> Some ` {1..length ps}" using j(1) by (simp add: sortedPlayers_props(2))
  next
    fix v assume "v \<in> Some ` {1..length ps}"
    then obtain n where n: "v = Some n" "1 \<le> n" "n \<le> length ps" by auto
    define j where "j = n - 1"
    have j: "j < length ps" "n = j + 1" using n by (simp_all add: j_def)
    have "?xs ! j \<in> set ps" using j(1) sortedPlayers_props(1,2) [of ps] nth_mem [of j ?xs] by simp
    moreover have "position (positioned 0 ?xs (?xs ! j)) = v" using nth [OF j(1)] n(1) j(2) by simp
    ultimately show "v \<in> set (map position ps')" by (auto simp: assms(2) image_iff)
  qed
  have "card (set (map position ps')) = length (map position ps')"
    by (simp only: s) (simp add: assms(2) card_image)
  then show "distinct (map position ps')" by (rule card_distinct)
qed

lemma positions_by_score:
  assumes "distinct (map spPlayerId ps)" and "ps' = map (positioned 0 (sortedPlayers ps)) ps"
    and "p \<in> set ps'" and "q \<in> set ps'" and "the (position p) < the (position q)"
  shows "currentSessionScore q \<le> currentSessionScore p"
proof -
  let ?xs = "sortedPlayers ps"
  have dx: "distinct (map spPlayerId ?xs)" by (rule sortedPlayers_props(4) [OF assms(1)])
  have pick: "\<exists>j < length ?xs. x = (?xs ! j)\<lparr>position := Some (j + 1)\<rparr>" if "x \<in> set ps'" for x
  proof -
    have "x \<in> positioned 0 ?xs ` set ps" using that unfolding assms(2) by simp
    then obtain y where y: "y \<in> set ps" "x = positioned 0 ?xs y" by blast
    then have "y \<in> set ?xs" by (simp add: sortedPlayers_props(1))
    then obtain j where j: "j < length ?xs" "?xs ! j = y" by (auto simp: in_set_conv_nth)
    then show ?thesis using positioned_nth [OF dx j(1), of 0] y(2) by auto
  qed
  obtain a where a: "a < length ?xs" "p = (?xs ! a)\<lparr>position := Some (a + 1)\<rparr>"
    using pick [OF assms(3)] by blast
  obtain b where b: "b < length ?xs" "q = (?xs ! b)\<lparr>position := Some (b + 1)\<rparr>"
    using pick [OF assms(4)] by blast
  have "a \<le> b" using assms(5) a(2) b(2) by simp
  then have "map (\<lambda>p. - currentSessionScore p) ?xs ! a \<le> map (\<lambda>p. - currentSessionScore p) ?xs ! b"
    using sortedPlayers_props(3) [of ps] b(1) by (simp add: sorted_nth_mono del: nth_map)
  then show ?thesis using a b by simp
qed

lemma positioned_rest: "(positioned i xs p)\<lparr>position := position p\<rparr> = p"
  by (simp add: positioned_def split: option.splits)

text \<open>
  C4, as stated: ending an active session with K active participants assigns
  the positions 1..K to exactly those K participants. In a session where p1
  (score 10) has left and p2 (score 5) is active, K is 1 and the one active
  participant is given position 2: the participant who left is ranked too.
\<close>

theorem endSession_ranks_departed_players:
  "status oneLeft = Active \<and> length (filter isActive (players oneLeft)) = 1
   \<and> map_sum id (map position \<circ> filter isActive \<circ> players \<circ> fst) (endSession ''s1'' 50 [oneLeft])
       = Inr [Some 2]"
  by (simp add: endSession_def findSession_def endFound_def sortedPlayers_def sessionSave_def
        sessionPreSave_def oneLeft_def match_def seat_def Let_def)

lemma players_sessionPreSave: "players (sessionPreSave now s) = players s"
  and status_sessionPreSave: "status (sessionPreSave now s) = status s"
  by (simp_all add: sessionPreSave_def)

lemma endFound_positions:
  assumes "distinct (map spPlayerId (players s))"
  shows "\<exists>s'. endFound now s = Inr s' \<and> status s' = Completed
           \<and> players s' = map (positioned 0 (sortedPlayers (players s))) (players s)"
  using assignPositions_sorted [OF assms]
  by (simp add: endFound_def Let_def)

lemma filter_keeps_order:
  "i < j \<Longrightarrow> j < length l \<Longrightarrow> P (l ! i) \<Longrightarrow> P (l ! j) \<Longrightarrow>
   \<exists>a b. a < b \<and> b < length (filter P l) \<and> filter P l ! a = l ! i \<and> filter P l ! b = l ! j"
proof (induction l arbitrary: i j)
  case Nil
  then show ?case by simp
next
  case (Cons x xs)
  obtain j' where j': "j = Suc j'" using Cons.prems(1) by (cases j) auto
  show ?case
  proof (cases i)
    case 0
    have "xs ! j' \<in> set (filter P xs)" using Cons.prems(2,4) j' by simp
    then obtain b where b: "b < length (filter P xs)" "filter P xs ! b = xs ! j'"
      by (auto simp only: in_set_conv_nth)
    have "(0::nat) < Suc b \<and> Suc b < length (filter P (x # xs))
          \<and> filter P (x # xs) ! 0 = (x # xs) ! i \<and> filter P (x # xs) ! Suc b = (x # xs) ! j"
      using 0 Cons.prems(3) b j' by simp
    then show ?thesis by blast
  next
    case (Suc i')
    have "i' < j'" "j' < length xs" "P (xs ! i')" "P (xs ! j')"
      using Cons.prems Suc j' by simp_all
    from Cons.IH [OF this] obtain a b where ab: "a < b" "b < length (filter P xs)"
      "filter P xs ! a = xs ! i'" "filter P xs ! b = xs ! j'" by blast
    show ?thesis
    proof (cases "P x")
      case True
      have "Suc a < Suc b \<and> Suc b < length (filter P (x # xs))
            \<and> filter P (x # xs) ! Suc a = (x # xs) ! i \<and> filter P (x # xs) ! Suc b = (x # xs) ! j"
        using True ab Suc j' by simp
      then show ?thesis by blast
    next
      case False
      have "a < b \<and> b < length (filter P (x # xs))
            \<and> filter P (x # xs) ! a = (x # xs) ! i \<and> filter P (x # xs) ! b = (x # xs) ! j"
        using False ab Suc j' by simp
      then show ?thesis by blast
    qed
  qed
qed

lemma sort_key_keeps_ties:
  assumes "distinct l" and "i < j" and "j < length l" and "f (l ! i) = f (l ! j)"
    and "a < length l" and "b < length l"
    and "sort_key f l ! a = l ! i" and "sort_key f l ! b = l ! j"
  shows "a < b"
proof (rule ccontr)
  assume "\<not> a < b"
  let ?P = "\<lambda>y. f y = f (l ! i)"
  let ?xs = "sort_key f l"
  have ne: "l ! i \<noteq> l ! j"
    using assms(1,2,3) by (simp add: nth_eq_iff_index_eq)
  have "a \<noteq> b" using ne assms(7,8) by auto
  then have ba: "b < a" using \<open>\<not> a < b\<close> by simp
  have fl: "filter ?P ?xs = filter ?P l" by (rule sort_key_stable)
  have dfl: "distinct (filter ?P l)" using assms(1) by simp
  have q1: "?P (l ! i)" by (rule refl)
  have q2: "?P (l ! j)" by (rule assms(4) [symmetric])
  from filter_keeps_order [OF assms(2,3) q1 q2] obtain u v where uv: "u < v"
      "v < length (filter ?P l)" "filter ?P l ! u = l ! i" "filter ?P l ! v = l ! j"
    by blast
  have h1: "a < length ?xs" using assms(5) by simp
  have h2: "?P (?xs ! b)" by (simp only: assms(8) assms(4))
  have h3: "?P (?xs ! a)" by (simp only: assms(7))
  from filter_keeps_order [OF ba h1 h2 h3] obtain u' v' where uv': "u' < v'" "v' < length (filter ?P l)"
      "filter ?P l ! u' = l ! j" "filter ?P l ! v' = l ! i"
    unfolding fl assms(7,8) by blast
  have ul: "u < length (filter ?P l)" using uv(1,2) by simp
  have ul': "u' < length (filter ?P l)" using uv'(1,2) by simp
  have "filter ?P l ! u = filter ?P l ! v'" by (simp only: uv(3) uv'(4))
  then have "u = v'" using nth_eq_iff_index_eq [OF dfl ul uv'(2)] by blast
  moreover have "filter ?P l ! v = filter ?P l ! u'" by (simp only: uv(4) uv'(3))
  then have "v = u'" using nth_eq_iff_index_eq [OF dfl uv(2) ul'] by blast
  ultimately show False using uv(1) uv'(1) by simp
qed

lemma positions_ties_in_list_order:
  assumes "distinct (map spPlayerId ps)" and "ps' = map (positioned 0 (sortedPlayers ps)) ps"
    and "i < j" and "j < length ps'"
    and "currentSessionScore (ps' ! i) = currentSessionScore (ps' ! j)"
  shows "the (position (ps' ! i)) < the (position (ps' ! j))"
proof -
  let ?xs = "sortedPlayers ps"
  have dx: "distinct (map spPlayerId ?xs)" by (rule sortedPlayers_props(4) [OF assms(1)])
  have dps: "distinct ps" using assms(1) by (simp add: distinct_map)
  have j: "j < length ps" and i: "i < length ps" using assms(2,3,4) by simp_all
  have pick: "\<exists>a < length ?xs. ?xs ! a = ps ! n" if "n < length ps" for n
  proof -
    have "ps ! n \<in> set ?xs" using that by (simp add: sortedPlayers_props(1))
    then show ?thesis by (auto simp: in_set_conv_nth)
  qed
  obtain a where a: "a < length ?xs" "?xs ! a = ps ! i" using pick [OF i] by blast
  obtain b where b: "b < length ?xs" "?xs ! b = ps ! j" using pick [OF j] by blast
  have pi: "ps' ! i = (ps ! i)\<lparr>position := Some (a + 1)\<rparr>"
    using positioned_nth [OF dx a(1), of 0] a(2) i by (simp add: assms(2))
  have pj: "ps' ! j = (ps ! j)\<lparr>position := Some (b + 1)\<rparr>"
    using positioned_nth [OF dx b(1), of 0] b(2) j by (simp add: assms(2))
  have eq: "- currentSessionScore (ps ! i) = - currentSessionScore (ps ! j)"
    using assms(5) pi pj by simp
  have "a < b"
    using sort_key_keeps_ties [OF dps assms(3) j, of "\<lambda>p. - currentSessionScore p" a b] eq a b
    by (simp add: sortedPlayers_def)
  then show ?thesis using pi pj by simp
qed

text \<open>
  C4, amended: ending an active session with N participants (with distinct
  player ids, as joining keeps them), active or not, succeeds, completes the
  session and assigns the positions 1..N bijectively to all N participants,
  with no duplicate and no skipped position, ordered by descending in-session
  score, participants of equal score in the order of the participant list;
  nothing else of a participant changes. The positions of the active
  participants are distinct positions among 1..N.
\<close>

theorem endSession_positions:
  assumes "findSession sid [Active] ss = Some s" and "distinct (map spPlayerId (players s))"
  shows "\<exists>s' ss'. endSession sid now ss = Inr (s', ss') \<and> status s' = Completed
           \<and> map (\<lambda>p. p\<lparr>position := None\<rparr>) (players s') = map (\<lambda>p. p\<lparr>position := None\<rparr>) (players s)
           \<and> distinct (map position (players s'))
           \<and> set (map position (players s')) = Some ` {1..length (players s)}
           \<and> (\<forall>p \<in> set (players s'). \<forall>q \<in> set (players s').
                 the (position p) < the (position q) \<longrightarrow> currentSessionScore q \<le> currentSessionScore p)
           \<and> (\<forall>j < length (players s'). \<forall>i < j.
                 currentSessionScore (players s' ! i) = currentSessionScore (players s' ! j) \<longrightarrow>
                 the (position (players s' ! i)) < the (position (players s' ! j)))"
proof -
  let ?ps' = "map (positioned 0 (sortedPlayers (players s))) (players s)"
  obtain s1 where s1: "endFound now s = Inr s1" "status s1 = Completed" "players s1 = ?ps'"
    using endFound_positions [OF assms(2), of now] by blast
  define s' where "s' = sessionPreSave now s1"
  have e: "endSession sid now ss = Inr (s', replaceSession s' ss)"
    by (simp add: endSession_def assms(1) s1(1) sessionSave_def s'_def Let_def)
  have p: "players s' = ?ps'" and st: "status s' = Completed"
    by (simp_all add: s'_def players_sessionPreSave status_sessionPreSave s1)
  have same: "map (\<lambda>p. p\<lparr>position := None\<rparr>) (players s') = map (\<lambda>p. p\<lparr>position := None\<rparr>) (players s)"
    by (simp add: p positioned_def comp_def split: option.splits)
  have d: "distinct (map position (players s'))"
    and r: "set (map position (players s')) = Some ` {1..length (players s)}"
    using positions_bijective [OF assms(2) p] by simp_all
  have o: "\<forall>p \<in> set (players s'). \<forall>q \<in> set (players s').
             the (position p) < the (position q) \<longrightarrow> currentSessionScore q \<le> currentSessionScore p"
    using positions_by_score [OF assms(2) p] by blast
  have t: "\<forall>j < length (players s'). \<forall>i < j.
                 currentSessionScore (players s' ! i) = currentSessionScore (players s' ! j) \<longrightarrow>
                 the (position (players s' ! i)) < the (position (players s' ! j))"
    using positions_ties_in_list_order [OF assms(2) p] by blast
  from e st same d r o t show ?thesis by blast
qed

theorem endSession_positions_witness:
  "findSession ''s1'' [Active] [quartet] = Some quartet \<and> distinct (map spPlayerId (players quartet))
   \<and> map_sum id (map position \<circ> players \<circ> fst) (endSession ''s1'' 50 [quartet])
        = Inr [Some 3, Some 1, Some 4, Some 2]
   \<and> (\<exists>s' ss'. endSession ''s1'' 50 [quartet] = Inr (s', ss') \<and> status s' = Completed
        \<and> distinct (map position (players s'))
        \<and> set (map position (players s')) = Some ` {1..length (players quartet)})"
proof -
  have a: "findSession ''s1'' [Active] [quartet] = Some quartet"
    by (simp add: findSession_def quartet_def match_def)
  have b: "distinct (map spPlayerId (players quartet))"
    by (simp add: quartet_def match_def seat_def)
  have c: "map_sum id (map position \<circ> players \<circ> fst) (endSession ''s1'' 50 [quartet])
        = Inr [Some 3, Some 1, Some 4, Some 2]"
    by (simp add: endSession_def findSession_def endFound_def sortedPlayers_def sessionSave_def
        sessionPreSave_def quartet_def match_def seat_def Let_def)
  show ?thesis
    using endSession_positions [OF a b, of 50] a b c by blast
qed

section \<open>Write-back of the bonus\<close>

lemma playerId_applyScoreUpdate [simp]: "playerId (applyScoreUpdate n g now p) = playerId p"
  by (simp add: applyScoreUpdate_def Let_def)

lemma currentScore_applyScoreUpdate [simp]: "currentScore (applyScoreUpdate n g now p) = n"
  by (simp add: applyScoreUpdate_def Let_def)

lemma findOne_update_same:
  "findOne pid ps = Some p \<Longrightarrow> (\<And>x. playerId (f x) = playerId x) \<Longrightarrow>
   findOne pid (snd (findOneAndUpdate pid f ps)) = Some (f p)"
  by (induction ps) (auto simp: findOne_def split: prod.splits)

lemma findOne_update_other:
  "q \<noteq> pid \<Longrightarrow> (\<And>p. playerId (f p) = playerId p) \<Longrightarrow>
   findOne pid (snd (findOneAndUpdate q f ps)) = findOne pid ps"
  by (induction ps) (auto simp: findOne_def split: prod.splits)

lemma writeBack_other:
  "pid \<notin> spPlayerId ` set ps \<Longrightarrow> findOne pid (writeBack es now ps db) = findOne pid db"
proof (induction ps arbitrary: db)
  case Nil
  then show ?case by simp
next
  case (Cons p ps)
  then have ne: "spPlayerId p \<noteq> pid" and rest: "pid \<notin> spPlayerId ` set ps" by auto
  show ?case
    using Cons.IH [OF rest] ne
    by (simp add: Let_def updatePlayerScore_def findOne_update_other split: option.splits)
qed

text \<open>
  The write-back of the end handler gives every active participant whose player
  document exists a durable score of its session score plus the bonus for its
  position among all participants.
\<close>

lemma writeBack_adds_bonus:
  assumes "distinct (map spPlayerId ps)" and "p \<in> set ps" and "isActive p"
    and "position p = Some pos" and "findOne (spPlayerId p) db = Some d"
  shows "map_option currentScore (findOne (spPlayerId p) (writeBack es now ps db)) =
           Some (currentSessionScore p + calculatePositionBonus (int pos) (int (length (players es))))"
  using assms
proof (induction ps arbitrary: db d)
  case Nil
  then show ?case by simp
next
  case (Cons x xs)
  show ?case
  proof (cases "x = p")
    case True
    have fresh: "spPlayerId p \<notin> spPlayerId ` set xs" using Cons.prems(1) True by simp
    have step: "findOne (spPlayerId p) (snd (updatePlayerScore (spPlayerId p) n g now db))
                  = Some (applyScoreUpdate n g now d)" for n g
      using findOne_update_same [OF Cons.prems(5), of "applyScoreUpdate n g now"]
      by (simp add: updatePlayerScore_def)
    show ?thesis
      using True Cons.prems(3,4) fresh
      by (simp add: Let_def writeBack_other step)
  next
    case False
    then have pin: "p \<in> set xs" using Cons.prems(2) by simp
    then have ne: "spPlayerId x \<noteq> spPlayerId p" using Cons.prems(1) by (fastforce simp: image_iff)
    have dx: "distinct (map spPlayerId xs)" using Cons.prems(1) by simp
    have keep: "findOne (spPlayerId p)
                  (snd (updatePlayerScore (spPlayerId x) n (Some (gameMode es)) now db)) = Some d" for n
      using ne Cons.prems(5) by (simp add: updatePlayerScore_def findOne_update_other)
    show ?thesis
      using Cons.IH [OF dx pin Cons.prems(3,4) Cons.prems(5)]
        Cons.IH [OF dx pin Cons.prems(3,4) keep]
      by (simp add: Let_def split: option.splits)
  qed
qed

end
